theory Spec2Isabelle
  imports Main
begin

section \<open>Source locations, tokens and the services of the parsing collaborator\<close>

text \<open>
  The engine of \<^verbatim>\<open>dce_instrumenter/src/DCEInstrumenter.cpp\<close> is a set of
  match callbacks run by Clang's \<^verbatim>\<open>MatchFinder\<close>. A \<^verbatim>\<open>SourceLocation\<close> is an
  opaque raw encoding (ordered, \<open>0\<close> is the invalid location); a \<^verbatim>\<open>FileID\<close>
  likewise.
\<close>

type_synonym SourceLocation = nat
type_synonym FileID = nat

definition isValid :: "SourceLocation \<Rightarrow> bool" where
  "isValid L = (L \<noteq> 0)"

text \<open>A lexed token: only \<^verbatim>\<open>is(tok::semi)\<close> and \<^verbatim>\<open>getLocation()\<close> are used.\<close>

datatype Token = Token (is_semi: bool) (getLocation: SourceLocation)

text \<open>\<^verbatim>\<open>clang::tooling::Replacement\<close>: file path, offset, length and new text.\<close>

record Replacement =
  FilePath :: string
  Offset :: nat
  Length :: int
  ReplacementText :: string

text \<open>
  The default-constructed \<^verbatim>\<open>tooling::Replacement()\<close>: the empty path, offset and
  length zero, no text.
\<close>

definition Replacement_invalid :: Replacement where
  "Replacement_invalid =
     \<lparr>FilePath = '''', Offset = 0, Length = 0, ReplacementText = ''''\<rparr>"

text \<open>
  The \<^verbatim>\<open>SourceManager\<close>, the \<^verbatim>\<open>Lexer\<close> and \<^verbatim>\<open>tooling::Replacements::add\<close>
  are library code that the engine only calls. They are the fields of one record that every
  function of the model takes as its first argument; theorems hold for every such record.
  \<open>getCharacterData\<close> gives the buffer from the location on (\<open>None\<close> for the null
  pointer); \<open>Replacements_add\<close> gives \<open>None\<close> where the library returns an error.
\<close>

record Clang =
  getMainFileID :: FileID
  getFileID :: "SourceLocation \<Rightarrow> FileID"
  getSpellingLoc :: "SourceLocation \<Rightarrow> SourceLocation"
  getExpansionLoc :: "SourceLocation \<Rightarrow> SourceLocation"
  getDecomposedLoc :: "SourceLocation \<Rightarrow> FileID \<times> nat"
  isInMainFile :: "SourceLocation \<Rightarrow> bool"
  getLocForStartOfFile :: "FileID \<Rightarrow> SourceLocation"
  getCharacterData :: "SourceLocation \<Rightarrow> string option"
  getFilename :: "FileID \<Rightarrow> string option"
  MeasureTokenLength :: "SourceLocation \<Rightarrow> nat"
  findNextToken :: "SourceLocation \<Rightarrow> Token option"
  GetBeginningOfToken :: "SourceLocation \<Rightarrow> SourceLocation"
  Replacements_add :: "Replacement list \<Rightarrow> Replacement \<Rightarrow> Replacement list option"

section \<open>The syntax tree\<close>

text \<open>
  The statement kinds are those the matchers of the engine tell apart; every other kind
  (expression statements, declarations, \<^verbatim>\<open>break\<close>, labels, ...) is an \<open>OtherStmt\<close>
  with its child statements. Each node carries \<^verbatim>\<open>getBeginLoc()\<close> and
  \<^verbatim>\<open>getEndLoc()\<close> as the parser supplies them; for a compound statement they are the
  two braces. Expressions are not statements here, so no statement occurs below a condition.
\<close>

datatype LoopKind = ForStmt | WhileStmt | DoStmt | CXXForRangeStmt

datatype LabelKind = CaseStmt | DefaultStmt

datatype Stmt =
    CompoundStmt SourceLocation SourceLocation "Stmt list"
  | NullStmt SourceLocation
  | IfStmt SourceLocation SourceLocation Stmt "Stmt option"
  | LoopStmt LoopKind SourceLocation SourceLocation Stmt
  | SwitchStmt SourceLocation SourceLocation Stmt
  | SwitchCase LabelKind SourceLocation SourceLocation Stmt
  | ReturnStmt SourceLocation SourceLocation
  | OtherStmt SourceLocation SourceLocation "Stmt list"

fun getBeginLoc :: "Stmt \<Rightarrow> SourceLocation" where
  "getBeginLoc (CompoundStmt b e ss) = b"
| "getBeginLoc (NullStmt l) = l"
| "getBeginLoc (IfStmt b e t el) = b"
| "getBeginLoc (LoopStmt k b e body) = b"
| "getBeginLoc (SwitchStmt b e body) = b"
| "getBeginLoc (SwitchCase k b e sub) = b"
| "getBeginLoc (ReturnStmt b e) = b"
| "getBeginLoc (OtherStmt b e ss) = b"

fun getEndLoc :: "Stmt \<Rightarrow> SourceLocation" where
  "getEndLoc (CompoundStmt b e ss) = e"
| "getEndLoc (NullStmt l) = l"
| "getEndLoc (IfStmt b e t el) = e"
| "getEndLoc (LoopStmt k b e body) = e"
| "getEndLoc (SwitchStmt b e body) = e"
| "getEndLoc (SwitchCase k b e sub) = e"
| "getEndLoc (ReturnStmt b e) = e"
| "getEndLoc (OtherStmt b e ss) = e"

definition getLBracLoc :: "Stmt \<Rightarrow> SourceLocation" where
  "getLBracLoc s = getBeginLoc s"

fun isa_CompoundStmt :: "Stmt \<Rightarrow> bool" where
  "isa_CompoundStmt (CompoundStmt b e ss) = True"
| "isa_CompoundStmt s = False"

fun isa_NullStmt :: "Stmt \<Rightarrow> bool" where
  "isa_NullStmt (NullStmt l) = True"
| "isa_NullStmt s = False"

fun isa_SwitchCase :: "Stmt \<Rightarrow> bool" where
  "isa_SwitchCase (SwitchCase k b e sub) = True"
| "isa_SwitchCase s = False"

fun isa_ReturnStmt :: "Stmt \<Rightarrow> bool" where
  "isa_ReturnStmt (ReturnStmt b e) = True"
| "isa_ReturnStmt s = False"

fun children :: "Stmt \<Rightarrow> Stmt list" where
  "children (CompoundStmt b e ss) = ss"
| "children (NullStmt l) = []"
| "children (IfStmt b e t el) = t # (case el of None \<Rightarrow> [] | Some x \<Rightarrow> [x])"
| "children (LoopStmt k b e body) = [body]"
| "children (SwitchStmt b e body) = [body]"
| "children (SwitchCase k b e sub) = [sub]"
| "children (ReturnStmt b e) = []"
| "children (OtherStmt b e ss) = ss"

text \<open>All proper descendants of a node, in pre-order (document order).\<close>

fun descendants :: "Stmt \<Rightarrow> Stmt list" where
  "descendants (CompoundStmt b e ss) = concat (map (\<lambda>c. c # descendants c) ss)"
| "descendants (NullStmt l) = []"
| "descendants (IfStmt b e t el) =
     (t # descendants t) @ (case el of None \<Rightarrow> [] | Some x \<Rightarrow> x # descendants x)"
| "descendants (LoopStmt k b e body) = body # descendants body"
| "descendants (SwitchStmt b e body) = body # descendants body"
| "descendants (SwitchCase k b e sub) = sub # descendants sub"
| "descendants (ReturnStmt b e) = []"
| "descendants (OtherStmt b e ss) = concat (map (\<lambda>c. c # descendants c) ss)"

text \<open>The matcher \<^verbatim>\<open>hasDescendant(m)\<close>.\<close>

definition hasDescendant :: "(Stmt \<Rightarrow> bool) \<Rightarrow> Stmt \<Rightarrow> bool" where
  "hasDescendant m s = list_ex m (descendants s)"

text \<open>The matcher \<^verbatim>\<open>isExpansionInMainFile()\<close>.\<close>

definition isExpansionInMainFile :: "Clang \<Rightarrow> Stmt \<Rightarrow> bool" where
  "isExpansionInMainFile cl s = isInMainFile cl (getExpansionLoc cl (getBeginLoc s))"

section \<open>The match finder\<close>

text \<open>
  What a matcher binds: the id of the binding and the node. The callback \<^verbatim>\<open>run\<close>
  of each tool asks for the ids in a fixed order.
\<close>

datatype MatchResult =
    Bind_stmt Stmt
  | Bind_switch_case Stmt
  | Bind_cstmt Stmt
  | Bind_stmt_with_return_descendant Stmt

type_synonym Matcher = "Stmt \<Rightarrow> MatchResult option"

text \<open>
  \<^verbatim>\<open>MatchFinder\<close> offers each node it visits to the registered matchers in the order
  of registration and calls the callback at once for each that matches.
\<close>

definition match_node :: "Matcher list \<Rightarrow> Stmt \<Rightarrow> MatchResult list" where
  "match_node ms s = List.map_filter (\<lambda>m. m s) ms"

text \<open>
  The order in which the finder reaches the nodes below a root. The finder is Clang's, not
  the repository's: its visitor matches a statement when the statement is put on the work
  queue of its parent (the overridden \<^verbatim>\<open>TraverseStmt\<close> matches first and then
  enqueues), and the queue is worked off depth first. So all children of a node are matched
  from left to right, and only then the nodes below the first child, below the second
  child, and so on. The repository's test \<^verbatim>\<open>DCEInstrumentTool switch\<close> pins this
  order (\<open>finder_order_switch_test\<close> below).
\<close>

fun visit_order :: "Stmt \<Rightarrow> Stmt list" where
  "visit_order (CompoundStmt b e ss) = ss @ concat (map visit_order ss)"
| "visit_order (NullStmt l) = []"
| "visit_order (IfStmt b e t el) =
     (case el of None \<Rightarrow> [t] @ visit_order t
      | Some x \<Rightarrow> [t, x] @ visit_order t @ visit_order x)"
| "visit_order (LoopStmt k b e body) = body # visit_order body"
| "visit_order (SwitchStmt b e body) = body # visit_order body"
| "visit_order (SwitchCase k b e sub) = sub # visit_order sub"
| "visit_order (ReturnStmt b e) = []"
| "visit_order (OtherStmt b e ss) = ss @ concat (map visit_order ss)"

text \<open>A translation unit is the list of its function bodies, in source order.\<close>

definition visited_nodes :: "Stmt list \<Rightarrow> Stmt list" where
  "visited_nodes tu = concat (map (\<lambda>body. body # visit_order body) tu)"

definition matchAST :: "Matcher list \<Rightarrow> Stmt list \<Rightarrow> MatchResult list" where
  "matchAST ms tu = concat (map (match_node ms) (visited_nodes tu))"

section \<open>Recording edits\<close>

datatype Fatal = CannotReadSourceCode | ReplacementError Replacement

text \<open>
  \<open>FileToReplacements\<close> is the map the tools share with the driver and \<open>errs\<close> the
  diagnostic stream. \<open>Emitted\<close> is a ghost trace: every replacement handed to the
  map, with the location it was requested at, in the order of the calls.
\<close>

record Output =
  FileToReplacements :: "string \<Rightarrow> Replacement list"
  errs :: "string list"
  Emitted :: "(SourceLocation \<times> Replacement) list"

definition Output_init :: Output where
  "Output_init = \<lparr>FileToReplacements = (\<lambda>f. []), errs = [], Emitted = []\<rparr>"

definition newline :: string where
  "newline = [CHR 0x0A]"

text \<open>
  The constructor \<^verbatim>\<open>Replacement(SM, CharSourceRange::getTokenRange(B, E), Text)\<close>:
  the file and offset of the spelling location of \<open>B\<close> (the path of the default
  replacement if the location has no file entry), and as length the distance to the end of
  the token at \<open>E\<close>.
\<close>

definition Replacement_of_token_range ::
  "Clang \<Rightarrow> SourceLocation \<Rightarrow> SourceLocation \<Rightarrow> string \<Rightarrow> Replacement" where
  "Replacement_of_token_range cl B E Text =
     (let SB = getSpellingLoc cl B; SE = getSpellingLoc cl E;
          Start = getDecomposedLoc cl SB; End = getDecomposedLoc cl SE;
          Len = (if fst Start \<noteq> fst End then - 1
                 else int (snd End) + int (MeasureTokenLength cl SE) - int (snd Start))
      in \<lparr>FilePath = (case getFilename cl (fst Start) of
                        None \<Rightarrow> FilePath Replacement_invalid | Some n \<Rightarrow> n),
          Offset = snd Start, Length = Len, ReplacementText = Text\<rparr>)"

text \<open>\<^verbatim>\<open>createReplacement\<close>: the replacement and what it prints on \<^verbatim>\<open>llvm::errs()\<close>.\<close>

definition createReplacement ::
  "Clang \<Rightarrow> SourceLocation \<Rightarrow> SourceLocation \<Rightarrow> string \<Rightarrow> Replacement \<times> string list" where
  "createReplacement cl Start End Text =
     (if \<not> isValid Start \<or> \<not> isValid End
      then (Replacement_invalid, [''start or end location were invalid'' @ newline])
      else if fst (getDecomposedLoc cl Start) \<noteq> fst (getDecomposedLoc cl End)
      then (Replacement_invalid,
            [''start or end location were in different macro expansions'' @ newline])
      else let Start' = getSpellingLoc cl Start; End' = getSpellingLoc cl End in
        if getFileID cl Start' \<noteq> getFileID cl End'
        then (Replacement_invalid,
              [''start or end location were in different files'' @ newline])
        else (Replacement_of_token_range cl
                (getSpellingLoc cl Start') (getSpellingLoc cl End') Text, []))"

text \<open>
  \<^verbatim>\<open>addReplacementOrDie\<close>: the replacement goes into the set of its file; an error of
  \<^verbatim>\<open>Replacements::add\<close> ends the run (\<open>Inl\<close>).
\<close>

definition addReplacementOrDie ::
  "Clang \<Rightarrow> SourceLocation \<Rightarrow> SourceLocation \<Rightarrow> string \<Rightarrow> Output \<Rightarrow> Fatal + Output" where
  "addReplacementOrDie cl Start End Text out =
     (let (R, diag) = createReplacement cl Start End Text in
      case Replacements_add cl (FileToReplacements out (FilePath R)) R of
        None \<Rightarrow> Inl (ReplacementError R)
      | Some rs \<Rightarrow>
          Inr (out\<lparr>FileToReplacements := (FileToReplacements out)(FilePath R := rs),
                   errs := errs out @ diag,
                   Emitted := Emitted out @ [(Start, R)]\<rparr>))"

text \<open>
  The edit sets that result from handing replacements to \<^verbatim>\<open>Replacements::add\<close> one
  after the other, each to the set of its own path; \<open>None\<close> if one is rejected.
\<close>

fun record_all ::
  "Clang \<Rightarrow> Replacement list \<Rightarrow> (string \<Rightarrow> Replacement list)
     \<Rightarrow> (string \<Rightarrow> Replacement list) option" where
  "record_all cl [] M = Some M"
| "record_all cl (R # Rs) M =
     (case Replacements_add cl (M (FilePath R)) R of
        None \<Rightarrow> None
      | Some rs \<Rightarrow> record_all cl Rs (M(FilePath R := rs)))"

text \<open>Running a callback over the matches, stopping at the first fatal error.\<close>

fun run_matches :: "(MatchResult \<Rightarrow> 's \<Rightarrow> Fatal + 's) \<Rightarrow> MatchResult list \<Rightarrow> 's \<Rightarrow> Fatal + 's" where
  "run_matches f [] st = Inr st"
| "run_matches f (r # rs) st =
     (case f r st of Inl e \<Rightarrow> Inl e | Inr st' \<Rightarrow> run_matches f rs st')"

text \<open>
  The end boundary both tools compute from the end location of a statement (the lambda
  \<^verbatim>\<open>EndTokenLoc\<close>): the next token if it is a semicolon, else the beginning of the token
  at the end location itself.
\<close>

definition EndTokenLoc :: "Clang \<Rightarrow> SourceLocation \<Rightarrow> SourceLocation" where
  "EndTokenLoc cl StmtEnd =
     (case findNextToken cl StmtEnd of
        Some SemiToken \<Rightarrow>
          if is_semi SemiToken then getLocation SemiToken
          else GetBeginningOfToken cl StmtEnd
      | None \<Rightarrow> GetBeginningOfToken cl StmtEnd)"

section \<open>The statement canonicalizer\<close>

fun isa_CaseStmt :: "Stmt \<Rightarrow> bool" where
  "isa_CaseStmt (SwitchCase k b e sub) = (k = CaseStmt)"
| "isa_CaseStmt s = False"

fun isa_DefaultStmt :: "Stmt \<Rightarrow> bool" where
  "isa_DefaultStmt (SwitchCase k b e sub) = (k = DefaultStmt)"
| "isa_DefaultStmt s = False"

fun getSubStmt :: "Stmt \<Rightarrow> Stmt" where
  "getSubStmt (SwitchCase k b e sub) = sub"
| "getSubStmt s = s"

text \<open>The five matchers of \<^verbatim>\<open>DCECanonicalizerTool::registerMatchers\<close>, in its order.\<close>

definition ifStmt_hasThen_stmt :: "Clang \<Rightarrow> Matcher" where
  "ifStmt_hasThen_stmt cl s =
     (case s of IfStmt b e t el \<Rightarrow>
        if isExpansionInMainFile cl s then Some (Bind_stmt t) else None
      | _ \<Rightarrow> None)"

definition ifStmt_hasElse_stmt :: "Clang \<Rightarrow> Matcher" where
  "ifStmt_hasElse_stmt cl s =
     (case s of IfStmt b e t (Some x) \<Rightarrow>
        if isExpansionInMainFile cl s then Some (Bind_stmt x) else None
      | _ \<Rightarrow> None)"

definition loop_hasBody_stmt :: "Clang \<Rightarrow> Matcher" where
  "loop_hasBody_stmt cl s =
     (case s of LoopStmt k b e body \<Rightarrow>
        if isExpansionInMainFile cl s then Some (Bind_stmt body) else None
      | _ \<Rightarrow> None)"

definition switch_case_matcher :: "LabelKind \<Rightarrow> Clang \<Rightarrow> Matcher" where
  "switch_case_matcher kind cl s =
     (case s of SwitchCase k b e sub \<Rightarrow>
        if k = kind \<and> isExpansionInMainFile cl s
           \<and> \<not> (hasDescendant isa_DefaultStmt s \<or> hasDescendant isa_CaseStmt s)
        then Some (Bind_switch_case s) else None
      | _ \<Rightarrow> None)"

definition DCECanonicalizerTool_registerMatchers :: "Clang \<Rightarrow> Matcher list" where
  "DCECanonicalizerTool_registerMatchers cl =
     [ifStmt_hasThen_stmt cl, ifStmt_hasElse_stmt cl, loop_hasBody_stmt cl,
      switch_case_matcher CaseStmt cl, switch_case_matcher DefaultStmt cl]"

text \<open>
  \<^verbatim>\<open>std::map<SourceLocation, size_t>\<close> as an association list kept in the order of
  its keys; \<open>map_increment\<close> is \<^verbatim>\<open>++M[k]\<close>.
\<close>

fun map_increment :: "SourceLocation \<Rightarrow> (SourceLocation \<times> nat) list \<Rightarrow> (SourceLocation \<times> nat) list" where
  "map_increment k [] = [(k, 1)]"
| "map_increment k ((k', n) # m) =
     (if k = k' then (k', n + 1) # m
      else if k < k' then (k, 1) # (k', n) # m
      else (k', n) # map_increment k m)"

record DCECanonicalizerTool =
  CurlyBracesInsertedAtLocation :: "(SourceLocation \<times> nat) list"
  COut :: Output

definition DCECanonicalizerTool_init :: DCECanonicalizerTool where
  "DCECanonicalizerTool_init = \<lparr>CurlyBracesInsertedAtLocation = [], COut = Output_init\<rparr>"

definition handleStmt :: "Clang \<Rightarrow> Stmt \<Rightarrow> DCECanonicalizerTool \<Rightarrow> Fatal + DCECanonicalizerTool" where
  "handleStmt cl Statement st =
     (let StmtBegin = getBeginLoc Statement in
      if getMainFileID cl \<noteq> getFileID cl (getSpellingLoc cl StmtBegin) then Inr st
      else if isa_CompoundStmt Statement then Inr st
      else if isa_NullStmt Statement then
        (case addReplacementOrDie cl StmtBegin StmtBegin ''{}'' (COut st) of
           Inl e \<Rightarrow> Inl e
         | Inr out \<Rightarrow> Inr (st\<lparr>COut := out\<rparr>))
      else
        let StmtEnd = getEndLoc Statement in
        case getCharacterData cl StmtBegin of
          None \<Rightarrow> Inl CannotReadSourceCode
        | Some BeginSource \<Rightarrow>
            let BeginTokenLen = MeasureTokenLength cl StmtBegin in
            case addReplacementOrDie cl StmtBegin StmtBegin
                   (''{'' @ take BeginTokenLen BeginSource) (COut st) of
              Inl e \<Rightarrow> Inl e
            | Inr out \<Rightarrow>
                Inr (st\<lparr>COut := out,
                        CurlyBracesInsertedAtLocation :=
                          map_increment (EndTokenLoc cl StmtEnd)
                            (CurlyBracesInsertedAtLocation st)\<rparr>))"

definition DCECanonicalizerTool_run ::
  "Clang \<Rightarrow> MatchResult \<Rightarrow> DCECanonicalizerTool \<Rightarrow> Fatal + DCECanonicalizerTool" where
  "DCECanonicalizerTool_run cl Result st =
     (case Result of
        Bind_stmt Statement \<Rightarrow> handleStmt cl Statement st
      | Bind_switch_case SwitchCase_ \<Rightarrow> handleStmt cl (getSubStmt SwitchCase_) st
      | _ \<Rightarrow> Inr st)"

text \<open>The loop of \<^verbatim>\<open>DCECanonicalizerTool::onEndOfTranslationUnit\<close> over the map.\<close>

fun flush_braces :: "Clang \<Rightarrow> (SourceLocation \<times> nat) list \<Rightarrow> Output \<Rightarrow> Fatal + Output" where
  "flush_braces cl [] out = Inr out"
| "flush_braces cl ((Loc, NBraces) # rest) out =
     (let TokenLen = MeasureTokenLength cl Loc in
      case getCharacterData cl Loc of
        None \<Rightarrow> Inl CannotReadSourceCode
      | Some Source \<Rightarrow>
          (case addReplacementOrDie cl Loc Loc
                  (take TokenLen Source @ replicate NBraces (CHR ''}'')) out of
             Inl e \<Rightarrow> Inl e
           | Inr out' \<Rightarrow> flush_braces cl rest out'))"

definition DCECanonicalizerTool_onEndOfTranslationUnit ::
  "Clang \<Rightarrow> DCECanonicalizerTool \<Rightarrow> Fatal + DCECanonicalizerTool" where
  "DCECanonicalizerTool_onEndOfTranslationUnit cl st =
     (case flush_braces cl (CurlyBracesInsertedAtLocation st) (COut st) of
        Inl e \<Rightarrow> Inl e
      | Inr out \<Rightarrow> Inr (st\<lparr>COut := out\<rparr>))"

text \<open>The canonicalizer over one translation unit: all matches, then the flush.\<close>

definition canonicalize_matches ::
  "Clang \<Rightarrow> Stmt list \<Rightarrow> Fatal + DCECanonicalizerTool" where
  "canonicalize_matches cl tu =
     run_matches (DCECanonicalizerTool_run cl)
       (matchAST (DCECanonicalizerTool_registerMatchers cl) tu) DCECanonicalizerTool_init"

definition canonicalize :: "Clang \<Rightarrow> Stmt list \<Rightarrow> Fatal + DCECanonicalizerTool" where
  "canonicalize cl tu =
     (case canonicalize_matches cl tu of
        Inl e \<Rightarrow> Inl e
      | Inr st \<Rightarrow> DCECanonicalizerTool_onEndOfTranslationUnit cl st)"

section \<open>The marker instrumenter\<close>

text \<open>\<^verbatim>\<open>std::to_string\<close> on a \<^verbatim>\<open>size_t\<close>: the decimal digits.\<close>

function to_string :: "nat \<Rightarrow> string" where
  "to_string n =
     (if n < 10 then [''0123456789'' ! n]
      else to_string (n div 10) @ [''0123456789'' ! (n mod 10)])"
  by pat_completeness auto
termination
  by (relation "measure (\<lambda>n. n)") auto

declare to_string.simps [simp del]

text \<open>
  \<open>NFunctionsInserted\<close> is a \<^verbatim>\<open>size_t\<close>; it counts edits to tokens of one
  translation unit, whose locations are 32-bit, so it is a natural number here.
\<close>

record DCEInstrumenterTool =
  NFunctionsInserted :: nat
  IOut :: Output

definition DCEInstrumenterTool_init :: DCEInstrumenterTool where
  "DCEInstrumenterTool_init = \<lparr>NFunctionsInserted = 0, IOut = Output_init\<rparr>"

text \<open>The six matchers of \<^verbatim>\<open>DCEInstrumenterTool::registerMatchers\<close>, in its order.\<close>

definition ifStmt_hasThen_compoundStmt :: "Clang \<Rightarrow> Matcher" where
  "ifStmt_hasThen_compoundStmt cl s =
     (case s of IfStmt b e t el \<Rightarrow>
        if isExpansionInMainFile cl s \<and> isa_CompoundStmt t then Some (Bind_cstmt t) else None
      | _ \<Rightarrow> None)"

definition ifStmt_hasElse_compoundStmt :: "Clang \<Rightarrow> Matcher" where
  "ifStmt_hasElse_compoundStmt cl s =
     (case s of IfStmt b e t (Some x) \<Rightarrow>
        if isExpansionInMainFile cl s \<and> isa_CompoundStmt x then Some (Bind_cstmt x) else None
      | _ \<Rightarrow> None)"

definition loop_hasBody_compoundStmt :: "Clang \<Rightarrow> Matcher" where
  "loop_hasBody_compoundStmt cl s =
     (case s of LoopStmt k b e body \<Rightarrow>
        if isExpansionInMainFile cl s \<and> isa_CompoundStmt body then Some (Bind_cstmt body)
        else None
      | _ \<Rightarrow> None)"

fun isa_if_loop_switch :: "Stmt \<Rightarrow> bool" where
  "isa_if_loop_switch (IfStmt b e t el) = True"
| "isa_if_loop_switch (LoopStmt k b e body) = True"
| "isa_if_loop_switch (SwitchStmt b e body) = True"
| "isa_if_loop_switch s = False"

definition HasReturnDesc :: "Clang \<Rightarrow> Stmt \<Rightarrow> bool" where
  "HasReturnDesc cl s = (isExpansionInMainFile cl s \<and> hasDescendant isa_ReturnStmt s)"

definition stmt_with_return_descendant_matcher :: "Clang \<Rightarrow> Matcher" where
  "stmt_with_return_descendant_matcher cl s =
     (if isa_if_loop_switch s \<and> HasReturnDesc cl s
      then Some (Bind_stmt_with_return_descendant s) else None)"

definition DCEInstrumenterTool_registerMatchers :: "Clang \<Rightarrow> Matcher list" where
  "DCEInstrumenterTool_registerMatchers cl =
     [ifStmt_hasThen_compoundStmt cl, ifStmt_hasElse_compoundStmt cl,
      loop_hasBody_compoundStmt cl,
      switch_case_matcher CaseStmt cl, switch_case_matcher DefaultStmt cl,
      stmt_with_return_descendant_matcher cl]"

definition DCECallStr :: "nat \<Rightarrow> string" where
  "DCECallStr n = ''DCEMarker'' @ to_string n @ ''_();''"

definition getNewDCECallStr :: "DCEInstrumenterTool \<Rightarrow> string \<times> DCEInstrumenterTool" where
  "getNewDCECallStr st =
     (DCECallStr (NFunctionsInserted st),
      st\<lparr>NFunctionsInserted := NFunctionsInserted st + 1\<rparr>)"

definition handleCompoundStmt ::
  "Clang \<Rightarrow> Stmt \<Rightarrow> DCEInstrumenterTool \<Rightarrow> Fatal + DCEInstrumenterTool" where
  "handleCompoundStmt cl CStatement st =
     (let LBracLoc = getLBracLoc CStatement;
          (call, st') = getNewDCECallStr st in
      case addReplacementOrDie cl LBracLoc LBracLoc (''{'' @ newline @ call) (IOut st') of
        Inl e \<Rightarrow> Inl e
      | Inr out \<Rightarrow> Inr (st'\<lparr>IOut := out\<rparr>))"

definition handleStmtWithReturnDescendant ::
  "Clang \<Rightarrow> Stmt \<Rightarrow> DCEInstrumenterTool \<Rightarrow> Fatal + DCEInstrumenterTool" where
  "handleStmtWithReturnDescendant cl Statement st =
     (let StmtEnd = getEndLoc Statement in
      if getMainFileID cl \<noteq> getFileID cl (getSpellingLoc cl StmtEnd) then Inr st
      else
        let EndLoc = EndTokenLoc cl StmtEnd;
            TokenLen = MeasureTokenLength cl EndLoc in
        case getCharacterData cl EndLoc of
          None \<Rightarrow> Inl CannotReadSourceCode
        | Some Source \<Rightarrow>
            let (call, st') = getNewDCECallStr st in
            case addReplacementOrDie cl EndLoc EndLoc
                   (take TokenLen Source @ newline @ call) (IOut st') of
              Inl e \<Rightarrow> Inl e
            | Inr out \<Rightarrow> Inr (st'\<lparr>IOut := out\<rparr>))"

definition DCEInstrumenterTool_run ::
  "Clang \<Rightarrow> MatchResult \<Rightarrow> DCEInstrumenterTool \<Rightarrow> Fatal + DCEInstrumenterTool" where
  "DCEInstrumenterTool_run cl Result st =
     (case Result of
        Bind_cstmt CStatement \<Rightarrow> handleCompoundStmt cl CStatement st
      | Bind_stmt_with_return_descendant Statement \<Rightarrow>
          handleStmtWithReturnDescendant cl Statement st
      | Bind_switch_case SwitchCase_ \<Rightarrow>
          if isa_CompoundStmt (getSubStmt SwitchCase_)
          then handleCompoundStmt cl (getSubStmt SwitchCase_) st
          else Inr st
      | _ \<Rightarrow> Inr st)"

definition forward_declarations :: "nat \<Rightarrow> string" where
  "forward_declarations N =
     concat (map (\<lambda>I. ''void DCEMarker'' @ to_string I @ ''_(void);'' @ newline) [0..<N])"

definition DCEInstrumenterTool_onEndOfTranslationUnit ::
  "Clang \<Rightarrow> DCEInstrumenterTool \<Rightarrow> Fatal + DCEInstrumenterTool" where
  "DCEInstrumenterTool_onEndOfTranslationUnit cl st =
     (if NFunctionsInserted st = 0 then Inr st
      else
        let SS = forward_declarations (NFunctionsInserted st);
            FBeginLoc = getLocForStartOfFile cl (getMainFileID cl);
            TokenLen = MeasureTokenLength cl FBeginLoc in
        case getCharacterData cl FBeginLoc of
          None \<Rightarrow> Inl CannotReadSourceCode
        | Some Source \<Rightarrow>
            (case addReplacementOrDie cl FBeginLoc FBeginLoc
                    (SS @ take TokenLen Source) (IOut st) of
               Inl e \<Rightarrow> Inl e
             | Inr out \<Rightarrow> Inr (st\<lparr>IOut := out\<rparr>)))"

definition instrument_matches :: "Clang \<Rightarrow> Stmt list \<Rightarrow> Fatal + DCEInstrumenterTool" where
  "instrument_matches cl tu =
     run_matches (DCEInstrumenterTool_run cl)
       (matchAST (DCEInstrumenterTool_registerMatchers cl) tu) DCEInstrumenterTool_init"

definition instrument :: "Clang \<Rightarrow> Stmt list \<Rightarrow> Fatal + DCEInstrumenterTool" where
  "instrument cl tu =
     (case instrument_matches cl tu of
        Inl e \<Rightarrow> Inl e
      | Inr st \<Rightarrow> DCEInstrumenterTool_onEndOfTranslationUnit cl st)"

section \<open>A concrete collaborator: files of tokens\<close>

text \<open>
  For evaluating the engine on concrete programs: a file is its name and its tokens, each
  with its offset in the buffer; the location of offset \<open>i\<close> in the \<open>k\<close>-th file is
  \<open>1000 * k + i\<close>, the first file is the main file, and there are no macro expansions
  (spelling and expansion location are the location itself).
\<close>

type_synonym SourceFile = "string \<times> (nat \<times> string) list"

text \<open>The buffer of a file from an offset on; between two tokens stand blanks.\<close>

fun buffer_from :: "(nat \<times> string) list \<Rightarrow> nat \<Rightarrow> string" where
  "buffer_from [] off = []"
| "buffer_from ((o', t) # ts) off =
     (if off < o' then replicate (o' - off) (CHR '' '') @ t @ buffer_from ts (o' + length t)
      else if off < o' + length t then drop (off - o') t @ buffer_from ts (o' + length t)
      else buffer_from ts off)"

definition file_of :: "SourceFile list \<Rightarrow> FileID \<Rightarrow> SourceFile option" where
  "file_of files fid =
     (if 1 \<le> fid \<and> fid \<le> length files then Some (files ! (fid - 1)) else None)"

definition tokens_at :: "SourceFile list \<Rightarrow> SourceLocation \<Rightarrow> (nat \<times> string) list" where
  "tokens_at files L =
     (case file_of files (L div 1000) of None \<Rightarrow> [] | Some f \<Rightarrow> snd f)"

text \<open>The token whose text covers an offset, if any.\<close>

definition token_covering :: "(nat \<times> string) list \<Rightarrow> nat \<Rightarrow> (nat \<times> string) option" where
  "token_covering tab off = find (\<lambda>(o', t). o' \<le> off \<and> off < o' + length t) tab"

definition tok_MeasureTokenLength :: "SourceFile list \<Rightarrow> SourceLocation \<Rightarrow> nat" where
  "tok_MeasureTokenLength files L =
     (case token_covering (tokens_at files L) (L mod 1000) of
        None \<Rightarrow> 0
      | Some (o', t) \<Rightarrow> o' + length t - L mod 1000)"

definition tok_findNextToken :: "SourceFile list \<Rightarrow> SourceLocation \<Rightarrow> Token option" where
  "tok_findNextToken files L =
     (case find (\<lambda>(o', t). L mod 1000 + tok_MeasureTokenLength files L \<le> o')
             (tokens_at files L) of
        None \<Rightarrow> None
      | Some (o', t) \<Rightarrow> Some (Token (t = '';'') (1000 * (L div 1000) + o')))"

definition tok_GetBeginningOfToken :: "SourceFile list \<Rightarrow> SourceLocation \<Rightarrow> SourceLocation" where
  "tok_GetBeginningOfToken files L =
     (case token_covering (tokens_at files L) (L mod 1000) of
        None \<Rightarrow> L
      | Some (o', t) \<Rightarrow> 1000 * (L div 1000) + o')"

definition tok_getCharacterData :: "SourceFile list \<Rightarrow> SourceLocation \<Rightarrow> string option" where
  "tok_getCharacterData files L =
     (case file_of files (L div 1000) of
        None \<Rightarrow> None
      | Some f \<Rightarrow> Some (buffer_from (snd f) (L mod 1000)))"

text \<open>
  Modelled from the spec: the Edit Ledger's \<^verbatim>\<open>record\<close> (section 4.1), which stands for
  \<^verbatim>\<open>clang::tooling::Replacements::add\<close>, library code outside the repository. Two
  edits with overlapping non-zero-width spans are a conflict; zero-width insertions at one
  anchor are concatenated; every other edit is kept, in the order of the span starts.
\<close>

definition spans_overlap :: "Replacement \<Rightarrow> Replacement \<Rightarrow> bool" where
  "spans_overlap r R =
     (0 < Length r \<and> 0 < Length R
      \<and> int (Offset r) < int (Offset R) + Length R
      \<and> int (Offset R) < int (Offset r) + Length r)"

definition ledger_add :: "Replacement list \<Rightarrow> Replacement \<Rightarrow> Replacement list option" where
  "ledger_add rs R =
     (if list_ex (\<lambda>r. spans_overlap r R) rs then None
      else if Length R = 0 \<and> list_ex (\<lambda>r. Length r = 0 \<and> Offset r = Offset R) rs
      then Some (map (\<lambda>r. if Length r = 0 \<and> Offset r = Offset R
                          then r\<lparr>ReplacementText := ReplacementText r @ ReplacementText R\<rparr>
                          else r) rs)
      else Some (insort_key Offset R rs))"

definition tok_getFilename :: "SourceFile list \<Rightarrow> FileID \<Rightarrow> string option" where
  "tok_getFilename files fid = map_option fst (file_of files fid)"

definition tok_clang :: "SourceFile list \<Rightarrow> Clang" where
  "tok_clang files =
     \<lparr>getMainFileID = 1,
      getFileID = (\<lambda>L. L div 1000),
      getSpellingLoc = (\<lambda>L. L),
      getExpansionLoc = (\<lambda>L. L),
      getDecomposedLoc = (\<lambda>L. (L div 1000, L mod 1000)),
      isInMainFile = (\<lambda>L. L div 1000 = 1),
      getLocForStartOfFile = (\<lambda>fid. 1000 * fid),
      getCharacterData = tok_getCharacterData files,
      getFilename = tok_getFilename files,
      MeasureTokenLength = tok_MeasureTokenLength files,
      findNextToken = tok_findNextToken files,
      GetBeginningOfToken = tok_GetBeginningOfToken files,
      Replacements_add = ledger_add\<rparr>"

section \<open>Canonical form\<close>

text \<open>
  A tree is in canonical form when every body position is an explicit block: both
  branches of a conditional, the body of a loop, and the statement a case or default
  label governs, which for a label followed directly by another label is that of the
  last label of the group.
\<close>

fun canonical :: "Stmt \<Rightarrow> bool" where
  "canonical (CompoundStmt b e ss) = (\<forall>c \<in> set ss. canonical c)"
| "canonical (NullStmt l) = True"
| "canonical (IfStmt b e t el) =
     (isa_CompoundStmt t \<and> canonical t
      \<and> (case el of None \<Rightarrow> True | Some x \<Rightarrow> isa_CompoundStmt x \<and> canonical x))"
| "canonical (LoopStmt k b e body) = (isa_CompoundStmt body \<and> canonical body)"
| "canonical (SwitchStmt b e body) = canonical body"
| "canonical (SwitchCase k b e sub) =
     ((isa_SwitchCase sub \<or> isa_CompoundStmt sub) \<and> canonical sub)"
| "canonical (ReturnStmt b e) = True"
| "canonical (OtherStmt b e ss) = (\<forall>c \<in> set ss. canonical c)"

section \<open>Reading a result\<close>

text \<open>A field of the final state of a run, \<open>None\<close> if the run ended fatally.\<close>

definition result_of :: "('s \<Rightarrow> 'a) \<Rightarrow> Fatal + 's \<Rightarrow> 'a option" where
  "result_of f r = (case r of Inl e \<Rightarrow> None | Inr st \<Rightarrow> Some (f st))"

text \<open>The text of the token at a location, as both tools read it before an edit.\<close>

definition token_text :: "Clang \<Rightarrow> SourceLocation \<Rightarrow> string" where
  "token_text cl Loc =
     (case getCharacterData cl Loc of
        None \<Rightarrow> []
      | Some Source \<Rightarrow> take (MeasureTokenLength cl Loc) Source)"

section \<open>Example programs\<close>

text \<open>
  Programs of the repository's tests and small variations, as token files and trees. A
  location in a tree is that of a token of the file: \<open>1000\<close> (for the main file,
  \<open>2000\<close> for the included one) plus the offset of the token. The end location of an
  expression statement is its last token before the semicolon, that of an \<^verbatim>\<open>if\<close>,
  a loop, a \<^verbatim>\<open>switch\<close> or a label is the end of its last child.
\<close>

text \<open>\<^verbatim>\<open>int foo(int a){ if (a > 0){ a = 1; } else{ a = 0; } return a; }\<close>\<close>

definition ifelse_src :: "SourceFile list" where
  "ifelse_src =
     [(''input.cc'',
       [(0, ''int''), (4, ''foo''), (8, ''(''), (10, ''int''), (14, ''a''),
        (16, '')''), (18, ''{''), (20, ''if''), (23, ''(''), (25, ''a''), (27, ''>''),
        (29, ''0''), (31, '')''), (33, ''{''), (35, ''a''), (37, ''=''), (39, ''1''),
        (41, '';''), (43, ''}''), (45, ''else''), (50, ''{''), (52, ''a''),
        (54, ''=''), (56, ''0''), (58, '';''), (60, ''}''), (62, ''return''),
        (69, ''a''), (71, '';''), (73, ''}'')])]"

definition ifelse_tu :: "Stmt list" where
  "ifelse_tu =
     [CompoundStmt 1018 1073
        [IfStmt 1020 1060
           (CompoundStmt 1033 1043 [OtherStmt 1035 1039 []])
           (Some (CompoundStmt 1050 1060 [OtherStmt 1052 1056 []])),
         ReturnStmt 1062 1069]]"

text \<open>\<^verbatim>\<open>int foo(int a){ for(;;) if (a > 0) a = 1; return a; }\<close>\<close>

definition forif_src :: "SourceFile list" where
  "forif_src =
     [(''input.cc'',
       [(0, ''int''), (4, ''foo''), (8, ''(''), (10, ''int''), (14, ''a''),
        (16, '')''), (18, ''{''), (20, ''for''), (24, ''(''), (26, '';''), (28, '';''),
        (30, '')''), (32, ''if''), (35, ''(''), (37, ''a''), (39, ''>''), (41, ''0''),
        (43, '')''), (45, ''a''), (47, ''=''), (49, ''1''), (51, '';''),
        (53, ''return''), (60, ''a''), (62, '';''), (64, ''}'')])]"

definition forif_tu :: "Stmt list" where
  "forif_tu =
     [CompoundStmt 1018 1064
        [LoopStmt ForStmt 1020 1049
           (IfStmt 1032 1049 (OtherStmt 1045 1049 []) None),
         ReturnStmt 1053 1060]]"

text \<open>
  The program of the test \<^verbatim>\<open>DCEInstrumentTool switch\<close> after canonicalization:
  \<^verbatim>\<open>int foo(int a){ switch(a){ case 1:{ a = 2; } break; case 2: case 3:{ break; }
  case 4:{ return 3; } case 5:{ a = 5; } default:{ a = 42; } } return a; }\<close>
\<close>

definition switch_src :: "SourceFile list" where
  "switch_src =
     [(''input.cc'',
       [(0, ''int''), (4, ''foo''), (8, ''(''), (10, ''int''), (14, ''a''),
        (16, '')''), (18, ''{''), (20, ''switch''), (27, ''(''), (29, ''a''),
        (31, '')''), (33, ''{''), (35, ''case''), (40, ''1''), (42, '':''),
        (44, ''{''), (46, ''a''), (48, ''=''), (50, ''2''), (52, '';''), (54, ''}''),
        (56, ''break''), (62, '';''), (64, ''case''), (69, ''2''), (71, '':''),
        (73, ''case''), (78, ''3''), (80, '':''), (82, ''{''), (84, ''break''),
        (90, '';''), (92, ''}''), (94, ''case''), (99, ''4''), (101, '':''),
        (103, ''{''), (105, ''return''), (112, ''3''), (114, '';''), (116, ''}''),
        (118, ''case''), (123, ''5''), (125, '':''), (127, ''{''), (129, ''a''),
        (131, ''=''), (133, ''5''), (135, '';''), (137, ''}''), (139, ''default''),
        (147, '':''), (149, ''{''), (151, ''a''), (153, ''=''), (155, ''42''),
        (158, '';''), (160, ''}''), (162, ''}''), (164, ''return''), (171, ''a''),
        (173, '';''), (175, ''}'')])]"

definition switch_group :: Stmt where
  "switch_group =
     SwitchCase CaseStmt 1064 1092
       (SwitchCase CaseStmt 1073 1092
          (CompoundStmt 1082 1092 [OtherStmt 1084 1084 []]))"

definition switch_stmt :: Stmt where
  "switch_stmt =
     SwitchStmt 1020 1162
       (CompoundStmt 1033 1162
          [SwitchCase CaseStmt 1035 1054
             (CompoundStmt 1044 1054 [OtherStmt 1046 1050 []]),
           OtherStmt 1056 1056 [],
           switch_group,
           SwitchCase CaseStmt 1094 1116
             (CompoundStmt 1103 1116 [ReturnStmt 1105 1112]),
           SwitchCase CaseStmt 1118 1137
             (CompoundStmt 1127 1137 [OtherStmt 1129 1133 []]),
           SwitchCase DefaultStmt 1139 1160
             (CompoundStmt 1149 1160 [OtherStmt 1151 1155 []])])"

definition switch_tu :: "Stmt list" where
  "switch_tu = [CompoundStmt 1018 1175 [switch_stmt, ReturnStmt 1164 1171]]"









text \<open>
  \<^verbatim>\<open>void foo(int a, int b){ switch(a){ case 1: case 2:{ switch(b){ case 3:{ } } } } }\<close>
\<close>

definition nested_src :: "SourceFile list" where
  "nested_src =
     [(''input.cc'',
       [(0, ''void''), (5, ''foo''), (9, ''(''), (11, ''int''), (15, ''a''),
        (17, '',''), (19, ''int''), (23, ''b''), (25, '')''), (27, ''{''),
        (29, ''switch''), (36, ''(''), (38, ''a''), (40, '')''), (42, ''{''),
        (44, ''case''), (49, ''1''), (51, '':''), (53, ''case''), (58, ''2''),
        (60, '':''), (62, ''{''), (64, ''switch''), (71, ''(''), (73, ''b''),
        (75, '')''), (77, ''{''), (79, ''case''), (84, ''3''), (86, '':''),
        (88, ''{''), (90, ''}''), (92, ''}''), (94, ''}''), (96, ''}''), (98, ''}'')])]"

definition nested_group :: Stmt where
  "nested_group =
     SwitchCase CaseStmt 1044 1094
       (SwitchCase CaseStmt 1053 1094
          (CompoundStmt 1062 1094
             [SwitchStmt 1064 1092
                (CompoundStmt 1077 1092
                   [SwitchCase CaseStmt 1079 1090 (CompoundStmt 1088 1090 [])])]))"

definition nested_tu :: "Stmt list" where
  "nested_tu =
     [CompoundStmt 1027 1098
        [SwitchStmt 1029 1096 (CompoundStmt 1042 1096 [nested_group])]]"




text \<open>
  A block that lies in an included file: \<^verbatim>\<open>void f(int a){ if (a)\<close> followed by the
  line \<^verbatim>\<open>#include <body.inc>\<close> and \<^verbatim>\<open>}\<close>, where \<^verbatim>\<open>body.inc\<close> holds
  \<^verbatim>\<open>{ a = 1; }\<close>.
\<close>

definition included_src :: "SourceFile list" where
  "included_src =
     [(''input.cc'',
       [(0, ''void''), (5, ''f''), (7, ''(''), (9, ''int''), (13, ''a''), (15, '')''),
        (17, ''{''), (19, ''if''), (22, ''(''), (24, ''a''), (26, '')''), (28, ''#''),
        (30, ''include''), (38, ''<body.inc>''), (49, ''}'')]),
      (''body.inc'',
       [(0, ''{''), (2, ''a''), (4, ''=''), (6, ''1''), (8, '';''), (10, ''}'')])]"

definition included_if :: Stmt where
  "included_if =
     IfStmt 1019 2010 (CompoundStmt 2000 2010 [OtherStmt 2002 2006 []]) None"

definition included_tu :: "Stmt list" where
  "included_tu =
     [CompoundStmt 1017 1049 [included_if]]"

text \<open>
  A loop whose body is a conditional with a \<^verbatim>\<open>return\<close>, not canonicalized:
  \<^verbatim>\<open>int foo(int a){ while(a) if (a){ return 1; } return 0; }\<close>
\<close>

definition whileif_src :: "SourceFile list" where
  "whileif_src =
     [(''input.cc'',
       [(0, ''int''), (4, ''foo''), (8, ''(''), (10, ''int''), (14, ''a''),
        (16, '')''), (18, ''{''), (20, ''while''), (26, ''(''), (28, ''a''),
        (30, '')''), (32, ''if''), (35, ''(''), (37, ''a''), (39, '')''), (41, ''{''),
        (43, ''return''), (50, ''1''), (52, '';''), (54, ''}''), (56, ''return''),
        (63, ''0''), (65, '';''), (67, ''}'')])]"

definition whileif_if :: Stmt where
  "whileif_if = IfStmt 1032 1054 (CompoundStmt 1041 1054 [ReturnStmt 1043 1050]) None"

definition whileif_loop :: Stmt where
  "whileif_loop = LoopStmt WhileStmt 1020 1054 whileif_if"

definition whileif_tu :: "Stmt list" where
  "whileif_tu =
     [CompoundStmt 1018 1067 [whileif_loop, ReturnStmt 1056 1063]]"

section \<open>What the canonicalizer braces\<close>


definition is_braced :: "Clang \<Rightarrow> Stmt \<Rightarrow> bool" where
  "is_braced cl s =
     (getMainFileID cl = getFileID cl (getSpellingLoc cl (getBeginLoc s))
      \<and> \<not> isa_CompoundStmt s \<and> \<not> isa_NullStmt s)"




section \<open>Where the instrumenter puts its probes\<close>

text \<open>
  The injection site a match stands for, with the text that precedes the call there:
  the left brace of a bound block (also of the block below a bound label), or the end
  boundary of a construct with a \<^verbatim>\<open>return\<close> below it whose end is spelled in the main
  file. A match without a site allocates no id.
\<close>

definition instr_request :: "Clang \<Rightarrow> MatchResult \<Rightarrow> (SourceLocation \<times> string) option" where
  "instr_request cl r =
     (case r of
        Bind_cstmt c \<Rightarrow> Some (getLBracLoc c, ''{'' @ newline)
      | Bind_stmt_with_return_descendant s \<Rightarrow>
          if getMainFileID cl \<noteq> getFileID cl (getSpellingLoc cl (getEndLoc s)) then None
          else Some (EndTokenLoc cl (getEndLoc s),
                     token_text cl (EndTokenLoc cl (getEndLoc s)) @ newline)
      | Bind_switch_case sc \<Rightarrow>
          if isa_CompoundStmt (getSubStmt sc)
          then Some (getLBracLoc (getSubStmt sc), ''{'' @ newline) else None
      | Bind_stmt s \<Rightarrow> None)"

definition probe_requests :: "Clang \<Rightarrow> MatchResult list \<Rightarrow> (SourceLocation \<times> string) list" where
  "probe_requests cl rs = List.map_filter (instr_request cl) rs"

text \<open>
  The same, read off the tree. The body positions of a construct; its entry-probe sites,
  the left braces of those body positions that are blocks (for a label only when the label
  is matched); and its fall-through site.
\<close>

fun body_positions :: "Stmt \<Rightarrow> Stmt list" where
  "body_positions (IfStmt b e t el) = t # (case el of None \<Rightarrow> [] | Some x \<Rightarrow> [x])"
| "body_positions (LoopStmt k b e body) = [body]"
| "body_positions (SwitchCase k b e sub) = [sub]"
| "body_positions s = []"

definition entry_requests :: "Clang \<Rightarrow> Stmt \<Rightarrow> (SourceLocation \<times> string) list" where
  "entry_requests cl n =
     (if isExpansionInMainFile cl n \<and> \<not> (isa_SwitchCase n \<and> hasDescendant isa_SwitchCase n)
      then map (\<lambda>c. (getLBracLoc c, ''{'' @ newline))
             (filter isa_CompoundStmt (body_positions n))
      else [])"

definition fallthrough_requests :: "Clang \<Rightarrow> Stmt \<Rightarrow> (SourceLocation \<times> string) list" where
  "fallthrough_requests cl n =
     (if isa_if_loop_switch n \<and> HasReturnDesc cl n
         \<and> getMainFileID cl = getFileID cl (getSpellingLoc cl (getEndLoc n))
      then [(EndTokenLoc cl (getEndLoc n),
             token_text cl (EndTokenLoc cl (getEndLoc n)) @ newline)]
      else [])"

text \<open>The sites numbered from \<open>n\<close> on, each with the edit that carries its call.\<close>

fun number_probes ::
  "Clang \<Rightarrow> nat \<Rightarrow> (SourceLocation \<times> string) list \<Rightarrow> (SourceLocation \<times> Replacement) list" where
  "number_probes cl n [] = []"
| "number_probes cl n (q # qs) =
     (fst q, fst (createReplacement cl (fst q) (fst q) (snd q @ DCECallStr n)))
       # number_probes cl (Suc n) qs"

text \<open>
  A single pre-order walk of the tree, as the specification words the traversal: a node,
  then everything below its first child, then everything below its second child, ...
\<close>

definition preorder_nodes :: "Stmt list \<Rightarrow> Stmt list" where
  "preorder_nodes tu = concat (map (\<lambda>body. body # descendants body) tu)"

definition matchAST_preorder :: "Matcher list \<Rightarrow> Stmt list \<Rightarrow> MatchResult list" where
  "matchAST_preorder ms tu = concat (map (match_node ms) (preorder_nodes tu))"

definition instrument_matches_preorder :: "Clang \<Rightarrow> Stmt list \<Rightarrow> Fatal + DCEInstrumenterTool" where
  "instrument_matches_preorder cl tu =
     run_matches (DCEInstrumenterTool_run cl)
       (matchAST_preorder (DCEInstrumenterTool_registerMatchers cl) tu)
       DCEInstrumenterTool_init"

section \<open>Fallthrough groups and the wording of the specification\<close>

text \<open>The labels of a fallthrough group, from the first label down to the last.\<close>

fun group_labels :: "Stmt \<Rightarrow> Stmt list" where
  "group_labels (SwitchCase k b e sub) = SwitchCase k b e sub # group_labels sub"
| "group_labels s = []"




section \<open>Idempotence of the canonicalizer\<close>

lemma canonical_visit_order:
  "canonical s \<Longrightarrow> c \<in> set (visit_order s) \<Longrightarrow> canonical c"
  by (induction s arbitrary: c) (auto split: option.splits)

lemma canonical_visited_nodes:
  assumes "\<forall>body \<in> set tu. canonical body" and "n \<in> set (visited_nodes tu)"
  shows "canonical n"
  using assms by (auto simp: visited_nodes_def dest: canonical_visit_order)

lemma handleStmt_compound:
  "isa_CompoundStmt s \<Longrightarrow> handleStmt cl s st = Inr st"
  by (simp add: handleStmt_def Let_def)

lemma isa_SwitchCase_kind:
  "isa_SwitchCase s \<Longrightarrow> isa_CaseStmt s \<or> isa_DefaultStmt s"
  by (cases s) (auto intro: LabelKind.exhaust)

lemma switch_case_matcher_sub:
  assumes "switch_case_matcher kind cl s = Some r"
  shows "r = Bind_switch_case s \<and> isa_SwitchCase s \<and> \<not> isa_SwitchCase (getSubStmt s)"
proof (cases s)
  case (SwitchCase k b e sub)
  with assms have nd: "\<not> hasDescendant isa_DefaultStmt s" "\<not> hasDescendant isa_CaseStmt s"
    and r: "r = Bind_switch_case s"
    by (auto simp: switch_case_matcher_def split: if_splits)
  from nd SwitchCase have "\<not> isa_DefaultStmt sub" "\<not> isa_CaseStmt sub"
    by (auto simp: hasDescendant_def)
  then have "\<not> isa_SwitchCase sub" using isa_SwitchCase_kind by blast
  with r SwitchCase show ?thesis by simp
qed (use assms in \<open>auto simp: switch_case_matcher_def\<close>)

lemma canon_match_cases:
  assumes "r \<in> set (match_node (DCECanonicalizerTool_registerMatchers cl) n)"
  obtains (th) "ifStmt_hasThen_stmt cl n = Some r"
    | (el) "ifStmt_hasElse_stmt cl n = Some r"
    | (lo) "loop_hasBody_stmt cl n = Some r"
    | (ca) k where "switch_case_matcher k cl n = Some r"
  using assms
  by (auto simp: match_node_def DCECanonicalizerTool_registerMatchers_def
      List.map_filter_def split: if_splits)

lemma canonical_match_noop:
  assumes "canonical n"
    and "r \<in> set (match_node (DCECanonicalizerTool_registerMatchers cl) n)"
  shows "DCECanonicalizerTool_run cl r st = Inr st"
  using assms(2)
proof (cases rule: canon_match_cases)
  case th
  with assms(1) show ?thesis
    by (cases n) (auto simp: ifStmt_hasThen_stmt_def DCECanonicalizerTool_run_def
        handleStmt_compound split: if_splits)
next
  case el
  with assms(1) show ?thesis
    by (cases n) (auto simp: ifStmt_hasElse_stmt_def DCECanonicalizerTool_run_def
        handleStmt_compound split: if_splits option.splits)
next
  case lo
  with assms(1) show ?thesis
    by (cases n) (auto simp: loop_hasBody_stmt_def DCECanonicalizerTool_run_def
        handleStmt_compound split: if_splits)
next
  case ca
  from switch_case_matcher_sub[OF ca]
  have r: "r = Bind_switch_case n" and sc: "isa_SwitchCase n"
    and ns: "\<not> isa_SwitchCase (getSubStmt n)" by auto
  from sc assms(1) ns have "isa_CompoundStmt (getSubStmt n)"
    by (cases n) auto
  with r show ?thesis
    by (simp add: DCECanonicalizerTool_run_def handleStmt_compound)
qed

lemma run_matches_noop:
  "(\<And>r. r \<in> set rs \<Longrightarrow> f r st = Inr st) \<Longrightarrow> run_matches f rs st = Inr st"
  by (induction rs) auto

text \<open>
  Claim C4. On a translation unit in canonical form the canonicalizer ends in its
  initial state: it has recorded no edit, owes no brace and has printed nothing.
\<close>

theorem canonicalize_idempotent:
  assumes "\<forall>body \<in> set tu. canonical body"
  shows "canonicalize cl tu = Inr DCECanonicalizerTool_init"
proof -
  have "canonicalize_matches cl tu = Inr DCECanonicalizerTool_init"
    unfolding canonicalize_matches_def
  proof (rule run_matches_noop)
    fix r
    assume "r \<in> set (matchAST (DCECanonicalizerTool_registerMatchers cl) tu)"
    then obtain n where "n \<in> set (visited_nodes tu)"
      and "r \<in> set (match_node (DCECanonicalizerTool_registerMatchers cl) n)"
      by (auto simp: matchAST_def)
    with assms show "DCECanonicalizerTool_run cl r DCECanonicalizerTool_init
        = Inr DCECanonicalizerTool_init"
      using canonical_visited_nodes canonical_match_noop by blast
  qed
  then show ?thesis
    by (simp add: canonicalize_def DCECanonicalizerTool_onEndOfTranslationUnit_def
        DCECanonicalizerTool_init_def)
qed


section \<open>From the requested edits to the edit sets\<close>

text \<open>
  What a call of \<^verbatim>\<open>addReplacementOrDie\<close> that returns has done: one replacement, the
  one \<^verbatim>\<open>createReplacement\<close> built, has gone through \<^verbatim>\<open>Replacements::add\<close> into the
  set of its file, and the diagnostics of \<^verbatim>\<open>createReplacement\<close> are printed.
\<close>

lemma addReplacementOrDie_Inr:
  assumes "addReplacementOrDie cl S E T out = Inr out'"
  shows "Emitted out' = Emitted out @ [(S, fst (createReplacement cl S E T))]"
    and "errs out' = errs out @ snd (createReplacement cl S E T)"
    and "record_all cl [fst (createReplacement cl S E T)] (FileToReplacements out)
           = Some (FileToReplacements out')"
  using assms
  by (auto simp: addReplacementOrDie_def Let_def split: prod.splits option.splits)

lemma record_all_append:
  "record_all cl (Rs @ Rs') M =
     (case record_all cl Rs M of None \<Rightarrow> None | Some M' \<Rightarrow> record_all cl Rs' M')"
  by (induction Rs arbitrary: M) (auto split: option.splits)

lemma record_all_suffix:
  assumes "record_all cl Rs M = Some M1" and "record_all cl (Rs @ Rs') M = Some M2"
  shows "record_all cl Rs' M1 = Some M2"
  using assms by (simp add: record_all_append)

lemma createReplacement_same:
  "createReplacement cl L L T =
     (if isValid L
      then (Replacement_of_token_range cl
              (getSpellingLoc cl (getSpellingLoc cl L))
              (getSpellingLoc cl (getSpellingLoc cl L)) T, [])
      else (Replacement_invalid, [''start or end location were invalid'' @ newline]))"
  by (simp add: createReplacement_def Let_def)

lemma createReplacement_text:
  "isValid L \<Longrightarrow> ReplacementText (fst (createReplacement cl L L T)) = T"
  by (simp add: createReplacement_same Replacement_of_token_range_def Let_def)

text \<open>
  The two facts that every call with one location as start and end preserves: the edit
  sets are what \<^verbatim>\<open>Replacements::add\<close> makes of the requested replacements, in the order
  of the requests; and the only diagnostic is that of an invalid location.
\<close>

lemma recorded_step:
  assumes "record_all cl (map snd (Emitted out)) M = Some (FileToReplacements out)"
    and "addReplacementOrDie cl S E T out = Inr out'"
  shows "record_all cl (map snd (Emitted out')) M = Some (FileToReplacements out')"
  using addReplacementOrDie_Inr [OF assms(2)] assms(1)
  by (simp add: record_all_append)


text \<open>
  Every call site of \<^verbatim>\<open>addReplacementOrDie\<close> in both tools passes one location as
  start and as end, so what each such call preserves, a run preserves.
\<close>

lemma run_matches_preserves:
  assumes "\<And>r st st'. f r st = Inr st' \<Longrightarrow> Q st \<Longrightarrow> Q st'"
    and "run_matches f rs st = Inr st'" and "Q st"
  shows "Q st'"
  using assms(2,3)
proof (induction rs arbitrary: st)
  case Nil
  then show ?case by simp
next
  case (Cons r rs)
  from Cons.prems(1) obtain st1 where "f r st = Inr st1"
    and "run_matches f rs st1 = Inr st'"
    by (auto split: sum.splits)
  with Cons.IH assms(1) Cons.prems(2) show ?case by blast
qed








lemma recorded_init:
  "record_all cl (map snd (Emitted Output_init)) (\<lambda>f. []) = Some (FileToReplacements Output_init)"
  by (simp add: Output_init_def)


section \<open>The brace debts and their flush\<close>















section \<open>The numbering of the probes\<close>

lemma handleCompoundStmt_Inr:
  assumes "handleCompoundStmt cl c st = Inr st'"
  shows "NFunctionsInserted st' = Suc (NFunctionsInserted st)"
    and "Emitted (IOut st') = Emitted (IOut st) @
           number_probes cl (NFunctionsInserted st) [(getLBracLoc c, ''{'' @ newline)]"
  using assms
  by (auto simp: handleCompoundStmt_def getNewDCECallStr_def Let_def
      dest: addReplacementOrDie_Inr split: sum.splits)

lemma handleCompoundStmt_preserves:
  assumes "\<And>L T out out'. P out \<Longrightarrow> addReplacementOrDie cl L L T out = Inr out' \<Longrightarrow> P out'"
    and "handleCompoundStmt cl c st = Inr st'" and "P (IOut st)"
  shows "P (IOut st')"
  using assms(2,3)
  by (auto simp: handleCompoundStmt_def getNewDCECallStr_def Let_def split: sum.splits
      dest: assms(1))

lemma handleStmtWithReturnDescendant_preserves:
  assumes "\<And>L T out out'. P out \<Longrightarrow> addReplacementOrDie cl L L T out = Inr out' \<Longrightarrow> P out'"
    and "handleStmtWithReturnDescendant cl s st = Inr st'" and "P (IOut st)"
  shows "P (IOut st')"
  using assms(2,3)
  by (auto simp: handleStmtWithReturnDescendant_def getNewDCECallStr_def Let_def
      split: sum.splits option.splits if_splits dest: assms(1))

lemma instr_run_preserves:
  assumes "\<And>L T out out'. P out \<Longrightarrow> addReplacementOrDie cl L L T out = Inr out' \<Longrightarrow> P out'"
    and "DCEInstrumenterTool_run cl r st = Inr st'" and "P (IOut st)"
  shows "P (IOut st')"
proof (cases r)
  case (Bind_cstmt c)
  with assms(2) have h: "handleCompoundStmt cl c st = Inr st'"
    by (simp add: DCEInstrumenterTool_run_def)
  show ?thesis
    by (rule handleCompoundStmt_preserves [where P = P, OF _ h assms(3)]) (rule assms(1))
next
  case (Bind_stmt_with_return_descendant s)
  with assms(2) have h: "handleStmtWithReturnDescendant cl s st = Inr st'"
    by (simp add: DCEInstrumenterTool_run_def)
  show ?thesis
    by (rule handleStmtWithReturnDescendant_preserves [where P = P, OF _ h assms(3)])
      (rule assms(1))
next
  case (Bind_switch_case sc)
  show ?thesis
  proof (cases "isa_CompoundStmt (getSubStmt sc)")
    case True
    with assms(2) Bind_switch_case have
      h: "handleCompoundStmt cl (getSubStmt sc) st = Inr st'"
      by (simp add: DCEInstrumenterTool_run_def)
    show ?thesis
      by (rule handleCompoundStmt_preserves [where P = P, OF _ h assms(3)]) (rule assms(1))
  next
    case False
    with assms(2,3) Bind_switch_case show ?thesis
      by (simp add: DCEInstrumenterTool_run_def)
  qed
qed (use assms(2,3) in \<open>auto simp: DCEInstrumenterTool_run_def\<close>)

lemma instrument_matches_preserves:
  assumes "\<And>L T out out'. P out \<Longrightarrow> addReplacementOrDie cl L L T out = Inr out' \<Longrightarrow> P out'"
    and "instrument_matches cl tu = Inr st" and "P Output_init"
  shows "P (IOut st)"
proof -
  have i: "P (IOut DCEInstrumenterTool_init)"
    using assms(3) by (simp add: DCEInstrumenterTool_init_def)
  have s: "P (IOut s')" if "DCEInstrumenterTool_run cl r s = Inr s'" and "P (IOut s)" for r s s'
    by (rule instr_run_preserves [where P = P, OF _ that]) (rule assms(1))
  from assms(2) have
    "run_matches (DCEInstrumenterTool_run cl)
       (matchAST (DCEInstrumenterTool_registerMatchers cl) tu) DCEInstrumenterTool_init = Inr st"
    by (simp add: instrument_matches_def)
  from run_matches_preserves [where Q = "\<lambda>s. P (IOut s)", OF s this i] show ?thesis .
qed

lemma onEnd_instr_preserves:
  assumes "\<And>L T out out'. P out \<Longrightarrow> addReplacementOrDie cl L L T out = Inr out' \<Longrightarrow> P out'"
    and "DCEInstrumenterTool_onEndOfTranslationUnit cl st = Inr st'" and "P (IOut st)"
  shows "P (IOut st')"
  using assms(2,3)
  by (auto simp: DCEInstrumenterTool_onEndOfTranslationUnit_def Let_def
      split: sum.splits option.splits if_splits dest: assms(1))

lemma instrument_split:
  "instrument cl tu = Inr st' \<longleftrightarrow>
     (\<exists>st. instrument_matches cl tu = Inr st
        \<and> DCEInstrumenterTool_onEndOfTranslationUnit cl st = Inr st')"
  by (auto simp: instrument_def split: sum.splits)

lemma instrument_preserves:
  assumes "\<And>L T out out'. P out \<Longrightarrow> addReplacementOrDie cl L L T out = Inr out' \<Longrightarrow> P out'"
    and "instrument cl tu = Inr st'" and "P Output_init"
  shows "P (IOut st')"
proof -
  from assms(2) obtain st where m: "instrument_matches cl tu = Inr st"
    and e: "DCEInstrumenterTool_onEndOfTranslationUnit cl st = Inr st'"
    by (auto simp: instrument_split)
  have pm: "P (IOut st)"
    by (rule instrument_matches_preserves [where P = P, OF _ m assms(3)]) (rule assms(1))
  show ?thesis
    by (rule onEnd_instr_preserves [where P = P, OF _ e pm]) (rule assms(1))
qed

lemma instrument_matches_recorded:
  assumes "instrument_matches cl tu = Inr st"
  shows "record_all cl (map snd (Emitted (IOut st))) (\<lambda>f. [])
           = Some (FileToReplacements (IOut st))"
  by (rule instrument_matches_preserves
      [where P = "\<lambda>out. record_all cl (map snd (Emitted out)) (\<lambda>f. [])
                    = Some (FileToReplacements out)", OF _ assms recorded_init])
    (rule recorded_step)

lemma instrument_recorded:
  assumes "instrument cl tu = Inr st"
  shows "record_all cl (map snd (Emitted (IOut st))) (\<lambda>f. [])
           = Some (FileToReplacements (IOut st))"
  by (rule instrument_preserves
      [where P = "\<lambda>out. record_all cl (map snd (Emitted out)) (\<lambda>f. [])
                    = Some (FileToReplacements out)", OF _ assms recorded_init])
    (rule recorded_step)

lemma handleStmtWithReturnDescendant_Inr:
  assumes "handleStmtWithReturnDescendant cl s st = Inr st'"
  shows "instr_request cl (Bind_stmt_with_return_descendant s) = None \<Longrightarrow> st' = st"
    and "instr_request cl (Bind_stmt_with_return_descendant s) = Some q \<Longrightarrow>
           NFunctionsInserted st' = Suc (NFunctionsInserted st)
           \<and> Emitted (IOut st') = Emitted (IOut st) @ number_probes cl (NFunctionsInserted st) [q]"
  using assms
  by (auto simp: handleStmtWithReturnDescendant_def getNewDCECallStr_def Let_def
      instr_request_def token_text_def
      dest: addReplacementOrDie_Inr split: sum.splits option.splits if_splits)

lemma run_instr_step:
  assumes "DCEInstrumenterTool_run cl r st = Inr st'"
  shows "instr_request cl r = None \<Longrightarrow> st' = st"
    and "instr_request cl r = Some q \<Longrightarrow>
           NFunctionsInserted st' = Suc (NFunctionsInserted st)
           \<and> Emitted (IOut st') = Emitted (IOut st) @ number_probes cl (NFunctionsInserted st) [q]"
proof -
  show "instr_request cl r = None \<Longrightarrow> st' = st"
    using assms handleStmtWithReturnDescendant_Inr(1)
    by (cases r) (auto simp: DCEInstrumenterTool_run_def instr_request_def split: if_splits)
  show "instr_request cl r = Some q \<Longrightarrow>
           NFunctionsInserted st' = Suc (NFunctionsInserted st)
           \<and> Emitted (IOut st') = Emitted (IOut st) @ number_probes cl (NFunctionsInserted st) [q]"
  proof (cases r)
    case (Bind_stmt_with_return_descendant s)
    assume "instr_request cl r = Some q"
    with assms Bind_stmt_with_return_descendant handleStmtWithReturnDescendant_Inr(2)
    show ?thesis by (simp add: DCEInstrumenterTool_run_def)
  qed (use assms handleCompoundStmt_Inr in
      \<open>auto simp: DCEInstrumenterTool_run_def instr_request_def split: if_splits\<close>)
qed

lemma number_probes_append:
  "number_probes cl n (qs @ qs') = number_probes cl n qs @ number_probes cl (n + length qs) qs'"
  by (induction qs arbitrary: n) auto

lemma length_number_probes [simp]: "length (number_probes cl n qs) = length qs"
  by (induction qs arbitrary: n) auto

lemma nth_number_probes:
  "i < length qs \<Longrightarrow>
   number_probes cl n qs ! i =
     (fst (qs ! i),
      fst (createReplacement cl (fst (qs ! i)) (fst (qs ! i)) (snd (qs ! i) @ DCECallStr (n + i))))"
proof (induction qs arbitrary: n i)
  case Nil
  then show ?case by simp
next
  case (Cons q qs)
  then show ?case by (cases i) auto
qed

lemma map_fst_number_probes [simp]: "map fst (number_probes cl n qs) = map fst qs"
  by (induction qs arbitrary: n) auto

lemma run_instr_trace:
  assumes "run_matches (DCEInstrumenterTool_run cl) rs st = Inr st'"
  shows "NFunctionsInserted st' = NFunctionsInserted st + length (probe_requests cl rs)
     \<and> Emitted (IOut st') =
         Emitted (IOut st) @ number_probes cl (NFunctionsInserted st) (probe_requests cl rs)"
  using assms
proof (induction rs arbitrary: st)
  case Nil
  then show ?case by (simp add: probe_requests_def List.map_filter_simps)
next
  case (Cons r rs)
  from Cons.prems obtain st1 where
    step: "DCEInstrumenterTool_run cl r st = Inr st1"
    and rest: "run_matches (DCEInstrumenterTool_run cl) rs st1 = Inr st'"
    by (auto split: sum.splits)
  show ?case
  proof (cases "instr_request cl r")
    case None
    with run_instr_step(1) [OF step] Cons.IH [OF rest] show ?thesis
      by (simp add: probe_requests_def List.map_filter_simps)
  next
    case (Some q)
    with run_instr_step(2) [OF step] Cons.IH [OF rest] show ?thesis
      by (simp add: probe_requests_def List.map_filter_simps)
  qed
qed

text \<open>The decimal rendering of an id determines the id.\<close>

lemma to_string_small: "n < 10 \<Longrightarrow> to_string n = [''0123456789'' ! n]"
  by (simp add: to_string.simps)

lemma to_string_large:
  "10 \<le> n \<Longrightarrow> to_string n = to_string (n div 10) @ [''0123456789'' ! (n mod 10)]"
  by (subst to_string.simps) simp

lemma to_string_nonempty: "to_string n \<noteq> []"
  by (subst to_string.simps) simp

lemma digit_inj:
  assumes "i < 10" and "j < 10" and "''0123456789'' ! i = ''0123456789'' ! j"
  shows "i = j"
proof -
  have "distinct ''0123456789''" by simp
  moreover have "length ''0123456789'' = 10" by simp
  ultimately show ?thesis
    using assms by (metis nth_eq_iff_index_eq)
qed

lemma to_string_inj: "to_string m = to_string n \<Longrightarrow> m = n"
proof (induction m arbitrary: n rule: less_induct)
  case (less m)
  show ?case
  proof (cases "m < 10")
    case True
    show ?thesis
    proof (cases "n < 10")
      case n: True
      with True less.prems show ?thesis
        by (simp add: to_string_small digit_inj)
    next
      case False
      then have "to_string n = to_string (n div 10) @ [''0123456789'' ! (n mod 10)]"
        by (simp add: to_string_large)
      with True less.prems to_string_nonempty [of "n div 10"] show ?thesis
        by (simp add: to_string_small)
    qed
  next
    case False
    then have m: "to_string m = to_string (m div 10) @ [''0123456789'' ! (m mod 10)]"
      by (simp add: to_string_large)
    show ?thesis
    proof (cases "n < 10")
      case True
      with m less.prems to_string_nonempty [of "m div 10"] show ?thesis
        by (simp add: to_string_small)
    next
      case n: False
      then have "to_string n = to_string (n div 10) @ [''0123456789'' ! (n mod 10)]"
        by (simp add: to_string_large)
      with m less.prems have a: "to_string (m div 10) = to_string (n div 10)"
        and b: "''0123456789'' ! (m mod 10) = ''0123456789'' ! (n mod 10)"
        by simp_all
      from False have "m div 10 < m" by simp
      from less.IH [OF this a] have "m div 10 = n div 10" .
      moreover from b have "m mod 10 = n mod 10"
        by (intro digit_inj) simp_all
      ultimately show ?thesis
        by (metis div_mult_mod_eq)
    qed
  qed
qed

lemma DCECallStr_inj: "DCECallStr i = DCECallStr j \<Longrightarrow> i = j"
  by (simp add: DCECallStr_def to_string_inj)

lemma onEnd_instr_Inr:
  assumes "DCEInstrumenterTool_onEndOfTranslationUnit cl st1 = Inr st"
  shows "NFunctionsInserted st = NFunctionsInserted st1"
    and "0 < NFunctionsInserted st1 \<Longrightarrow>
      Emitted (IOut st) = Emitted (IOut st1) @
        [(getLocForStartOfFile cl (getMainFileID cl),
          fst (createReplacement cl (getLocForStartOfFile cl (getMainFileID cl))
                 (getLocForStartOfFile cl (getMainFileID cl))
                 (forward_declarations (NFunctionsInserted st1)
                    @ token_text cl (getLocForStartOfFile cl (getMainFileID cl)))))]"
proof -
  show "NFunctionsInserted st = NFunctionsInserted st1"
    using assms
    by (auto simp: DCEInstrumenterTool_onEndOfTranslationUnit_def Let_def
        split: if_splits option.splits sum.splits)
  assume pos: "0 < NFunctionsInserted st1"
  let ?F = "getLocForStartOfFile cl (getMainFileID cl)"
  from assms pos obtain Source out where
    src: "getCharacterData cl ?F = Some Source"
    and add: "addReplacementOrDie cl ?F ?F
       (forward_declarations (NFunctionsInserted st1) @ take (MeasureTokenLength cl ?F) Source)
       (IOut st1) = Inr out"
    and st: "st = st1\<lparr>IOut := out\<rparr>"
    by (auto simp: DCEInstrumenterTool_onEndOfTranslationUnit_def Let_def
        split: option.splits sum.splits)
  from addReplacementOrDie_Inr(1) [OF add] src st
  show "Emitted (IOut st) = Emitted (IOut st1) @
        [(?F, fst (createReplacement cl ?F ?F
                 (forward_declarations (NFunctionsInserted st1) @ token_text cl ?F)))]"
    by (simp add: token_text_def)
qed

text \<open>
  Claim C2. If the instrumenter completes with \<open>N > 0\<close> allocated ids, it has handed
  \<open>N + 1\<close> replacements to \<^verbatim>\<open>Replacements::add\<close>, and the edit sets it leaves are the
  result of adding them in this order: the \<open>i\<close>-th, for \<open>i < N\<close>, at the \<open>i\<close>-th
  injection site in the order of the matches, ending in the call of marker \<open>i\<close>, and the
  last one at the start of the main file, holding the forward declarations of the markers
  \<open>0, ..., N - 1\<close> in ascending order followed by the text of the token there. Different
  ids give different calls. So the ids at the call sites are \<open>0, ..., N - 1\<close> without gap
  or repeat and there are as many declarations as call sites.
\<close>

theorem probe_conservation:
  fixes cl tu st
  defines "reqs \<equiv> probe_requests cl (matchAST (DCEInstrumenterTool_registerMatchers cl) tu)"
    and "N \<equiv> NFunctionsInserted st"
    and "F \<equiv> getLocForStartOfFile cl (getMainFileID cl)"
  assumes "instrument cl tu = Inr st" and "0 < NFunctionsInserted st"
  shows "length reqs = N
     \<and> length (Emitted (IOut st)) = N + 1
     \<and> (\<forall>i < N. fst (Emitted (IOut st) ! i) = fst (reqs ! i)
          \<and> (isValid (fst (reqs ! i)) \<longrightarrow>
               ReplacementText (snd (Emitted (IOut st) ! i)) = snd (reqs ! i) @ DCECallStr i))
     \<and> inj DCECallStr
     \<and> fst (Emitted (IOut st) ! N) = F
     \<and> (isValid F \<longrightarrow>
          ReplacementText (snd (Emitted (IOut st) ! N)) =
            concat (map (\<lambda>i. ''void DCEMarker'' @ to_string i @ ''_(void);'' @ newline) [0..<N])
            @ token_text cl F)
     \<and> Emitted (IOut st) =
          number_probes cl 0 reqs @
            [(F, fst (createReplacement cl F F
                        (concat (map (\<lambda>i. ''void DCEMarker'' @ to_string i @ ''_(void);''
                                         @ newline) [0..<N])
                         @ token_text cl F)))]
     \<and> record_all cl (map snd (Emitted (IOut st))) (\<lambda>f. [])
          = Some (FileToReplacements (IOut st))"
proof -
  let ?rs = "matchAST (DCEInstrumenterTool_registerMatchers cl) tu"
  from assms(4) obtain st1 where
    m: "instrument_matches cl tu = Inr st1"
    and e: "DCEInstrumenterTool_onEndOfTranslationUnit cl st1 = Inr st"
    by (auto simp: instrument_def split: sum.splits)
  from onEnd_instr_Inr(1) [OF e] have n1: "NFunctionsInserted st1 = N"
    by (simp add: N_def)
  from m have "run_matches (DCEInstrumenterTool_run cl) ?rs DCEInstrumenterTool_init = Inr st1"
    by (simp add: instrument_matches_def)
  from run_instr_trace [OF this] n1 have
    len: "length reqs = N"
    and em1: "Emitted (IOut st1) = number_probes cl 0 reqs"
    by (simp_all add: DCEInstrumenterTool_init_def Output_init_def reqs_def)
  from onEnd_instr_Inr(2) [OF e] assms(5) n1
  have em: "Emitted (IOut st) = number_probes cl 0 reqs @
      [(F, fst (createReplacement cl F F (forward_declarations N @ token_text cl F)))]"
    by (simp add: em1 N_def F_def)
  have calls: "fst (Emitted (IOut st) ! i) = fst (reqs ! i)
      \<and> (isValid (fst (reqs ! i)) \<longrightarrow>
           ReplacementText (snd (Emitted (IOut st) ! i)) = snd (reqs ! i) @ DCECallStr i)"
    if "i < N" for i
  proof -
    from that len have "Emitted (IOut st) ! i = number_probes cl 0 reqs ! i"
      by (simp add: em nth_append)
    with that len show ?thesis
      by (simp add: nth_number_probes createReplacement_text)
  qed
  have lst: "Emitted (IOut st) ! N =
      (F, fst (createReplacement cl F F (forward_declarations N @ token_text cl F)))"
    using len by (simp add: em nth_append)
  have l2: "length (Emitted (IOut st)) = N + 1"
    using len by (simp add: em)
  have ftext: "isValid F \<longrightarrow> ReplacementText (snd (Emitted (IOut st) ! N)) =
      concat (map (\<lambda>i. ''void DCEMarker'' @ to_string i @ ''_(void);'' @ newline) [0..<N])
        @ token_text cl F"
    by (simp add: lst createReplacement_text forward_declarations_def)
  have ffst: "fst (Emitted (IOut st) ! N) = F"
    by (simp only: lst fst_conv)
  have inj: "inj DCECallStr"
    by (rule injI) (rule DCECallStr_inj)
  have em': "Emitted (IOut st) =
      number_probes cl 0 reqs @
        [(F, fst (createReplacement cl F F
                    (concat (map (\<lambda>i. ''void DCEMarker'' @ to_string i @ ''_(void);''
                                     @ newline) [0..<N])
                     @ token_text cl F)))]"
    using em by (simp add: forward_declarations_def)
  note rec = instrument_recorded [OF assms(4)]
  from len l2 calls inj ffst ftext em' rec show ?thesis
    by blast
qed

section \<open>The order of the numbering\<close>

lemma isa_SwitchCase_iff: "isa_SwitchCase s \<longleftrightarrow> isa_CaseStmt s \<or> isa_DefaultStmt s"
  by (cases s) (auto intro: LabelKind.exhaust)

lemma hasDescendant_SwitchCase_iff:
  "hasDescendant isa_SwitchCase s \<longleftrightarrow>
     hasDescendant isa_DefaultStmt s \<or> hasDescendant isa_CaseStmt s"
  by (auto simp: hasDescendant_def list_ex_iff isa_SwitchCase_iff)

lemma switch_case_matcher_label:
  "switch_case_matcher kind cl (SwitchCase k b e sub) =
     (if k = kind \<and> isExpansionInMainFile cl (SwitchCase k b e sub)
         \<and> \<not> hasDescendant isa_SwitchCase (SwitchCase k b e sub)
      then Some (Bind_switch_case (SwitchCase k b e sub)) else None)"
  by (simp add: switch_case_matcher_def hasDescendant_SwitchCase_iff)

lemma instr_match_label:
  "match_node (DCEInstrumenterTool_registerMatchers cl) (SwitchCase k b e sub) =
     (if isExpansionInMainFile cl (SwitchCase k b e sub)
         \<and> \<not> hasDescendant isa_SwitchCase (SwitchCase k b e sub)
      then [Bind_switch_case (SwitchCase k b e sub)] else [])"
  by (cases k)
    (simp_all add: match_node_def DCEInstrumenterTool_registerMatchers_def
      List.map_filter_simps switch_case_matcher_label ifStmt_hasThen_compoundStmt_def
      ifStmt_hasElse_compoundStmt_def loop_hasBody_compoundStmt_def
      stmt_with_return_descendant_matcher_def)


lemma label_above_label:
  "isa_SwitchCase sub \<Longrightarrow> hasDescendant isa_SwitchCase (SwitchCase k b e sub)"
  by (simp add: hasDescendant_def)

text \<open>
  The sites the matches of one node stand for, read off the node: the left braces of its
  body positions that are blocks, in the order of the matchers, then its fall-through
  site.
\<close>

lemma probe_requests_append:
  "probe_requests cl (rs @ rs') = probe_requests cl rs @ probe_requests cl rs'"
  by (simp add: probe_requests_def List.map_filter_def)

lemma probe_requests_concat:
  "probe_requests cl (concat rss) = concat (map (probe_requests cl) rss)"
  by (induction rss) (simp_all add: probe_requests_append, simp add: probe_requests_def List.map_filter_simps)

lemma probe_requests_node:
  "probe_requests cl (match_node (DCEInstrumenterTool_registerMatchers cl) n)
     = entry_requests cl n @ fallthrough_requests cl n"
proof (cases n)
  case (SwitchCase k b e sub)
  then show ?thesis
    by (simp add: instr_match_label probe_requests_def List.map_filter_simps instr_request_def
        entry_requests_def fallthrough_requests_def)
next
  case (IfStmt b e t el)
  then show ?thesis
    by (cases el)
      (auto simp: match_node_def DCEInstrumenterTool_registerMatchers_def
        List.map_filter_simps switch_case_matcher_def ifStmt_hasThen_compoundStmt_def
        ifStmt_hasElse_compoundStmt_def loop_hasBody_compoundStmt_def
        stmt_with_return_descendant_matcher_def probe_requests_def instr_request_def
        entry_requests_def fallthrough_requests_def HasReturnDesc_def)
qed (auto simp: match_node_def DCEInstrumenterTool_registerMatchers_def
        List.map_filter_simps switch_case_matcher_def ifStmt_hasThen_compoundStmt_def
        ifStmt_hasElse_compoundStmt_def loop_hasBody_compoundStmt_def
        stmt_with_return_descendant_matcher_def probe_requests_def instr_request_def
        entry_requests_def fallthrough_requests_def HasReturnDesc_def)

lemma probe_requests_matchAST:
  "probe_requests cl (matchAST (DCEInstrumenterTool_registerMatchers cl) tu)
     = concat (map (\<lambda>n. entry_requests cl n @ fallthrough_requests cl n) (visited_nodes tu))"
  by (simp add: matchAST_def probe_requests_concat comp_def probe_requests_node)

text \<open>In the order of the finder a node comes before everything below it.\<close>

lemma visit_order_children:
  "visit_order s = children s @ concat (map visit_order (children s))"
  by (cases s) (auto split: option.splits)

lemma descendants_children:
  "descendants s = concat (map (\<lambda>c. c # descendants c) (children s))"
  by (cases s) (auto split: option.splits)

lemma children_size: "c \<in> set (children s) \<Longrightarrow> size c < size s"
  by (cases s) (auto simp: less_Suc_eq_le intro: size_list_estimation' split: option.splits)

lemma set_visit_order: "set (visit_order s) = set (descendants s)"
proof (induction s rule: measure_induct_rule [of size])
  case (less s)
  have "set (visit_order c) = set (descendants c)" if "c \<in> set (children s)" for c
    using less.IH [OF children_size [OF that]] .
  then show ?case
    by (subst visit_order_children, subst descendants_children) auto
qed

lemma children_first_split:
  assumes "\<And>c. c \<in> set cs \<Longrightarrow> n \<in> set (visit_order c) \<Longrightarrow>
             \<exists>pre post. visit_order c = pre @ n # post \<and> set (descendants n) \<subseteq> set post"
    and "n \<in> set (cs @ concat (map visit_order cs))"
  shows "\<exists>pre post. cs @ concat (map visit_order cs) = pre @ n # post
           \<and> set (descendants n) \<subseteq> set post"
proof (cases "n \<in> set cs")
  case True
  then obtain a b where cs: "cs = a @ n # b"
    by (auto dest: split_list)
  have "set (descendants n) \<subseteq> set (concat (map visit_order cs))"
    using True by (auto simp: set_visit_order [symmetric])
  then have "cs @ concat (map visit_order cs) = a @ n # (b @ concat (map visit_order cs))
      \<and> set (descendants n) \<subseteq> set (b @ concat (map visit_order cs))"
    using cs by auto
  then show ?thesis by blast
next
  case False
  with assms(2) obtain c where c: "c \<in> set cs" and n: "n \<in> set (visit_order c)"
    by auto
  from c obtain a b where cs: "cs = a @ c # b"
    by (auto dest: split_list)
  from assms(1) [OF c n] obtain p q where
    v: "visit_order c = p @ n # q" and d: "set (descendants n) \<subseteq> set q"
    by blast
  have "cs @ concat (map visit_order cs)
      = (cs @ concat (map visit_order a) @ p) @ n # (q @ concat (map visit_order b))"
    by (subst (2) cs) (simp add: v)
  moreover have "set (descendants n) \<subseteq> set (q @ concat (map visit_order b))"
    using d by auto
  ultimately show ?thesis by blast
qed

lemma visit_order_split:
  "n \<in> set (visit_order s) \<Longrightarrow>
     \<exists>pre post. visit_order s = pre @ n # post \<and> set (descendants n) \<subseteq> set post"
proof (induction s rule: measure_induct_rule [of size])
  case (less s)
  have ih: "\<exists>pre post. visit_order c = pre @ n # post \<and> set (descendants n) \<subseteq> set post"
    if "c \<in> set (children s)" and "n \<in> set (visit_order c)" for c
    using less.IH [OF children_size [OF that(1)] that(2)] .
  from less.prems have "n \<in> set (children s @ concat (map visit_order (children s)))"
    by (subst (asm) visit_order_children)
  from children_first_split [OF ih this] show ?case
    by (subst visit_order_children)
qed

lemma visited_nodes_split:
  assumes "n \<in> set (visited_nodes tu)"
  shows "\<exists>pre post. visited_nodes tu = pre @ n # post \<and> set (descendants n) \<subseteq> set post"
proof -
  from assms obtain body where b: "body \<in> set tu"
    and n: "n = body \<or> n \<in> set (visit_order body)"
    by (auto simp: visited_nodes_def)
  from b obtain x y where tu: "tu = x @ body # y"
    by (auto dest: split_list)
  have vn: "visited_nodes tu = visited_nodes x @ body # visit_order body @ visited_nodes y"
    by (simp add: tu visited_nodes_def)
  show ?thesis
  proof (cases "n = body")
    case True
    have "set (descendants n) \<subseteq> set (visit_order body @ visited_nodes y)"
      using True by (auto simp: set_visit_order)
    with vn True show ?thesis by blast
  next
    case False
    with n have "n \<in> set (visit_order body)" by simp
    from visit_order_split [OF this] obtain p q where
      v: "visit_order body = p @ n # q" and d: "set (descendants n) \<subseteq> set q"
      by blast
    have "visited_nodes tu = (visited_nodes x @ body # p) @ n # (q @ visited_nodes y)"
      by (simp add: vn v)
    moreover have "set (descendants n) \<subseteq> set (q @ visited_nodes y)"
      using d by auto
    ultimately show ?thesis by blast
  qed
qed

text \<open>
  Claim C3, amended. The ids are a function of the input alone. If the traversal
  completes, the \<open>i\<close>-th replacement it has handed to \<^verbatim>\<open>Replacements::add\<close> is the call
  of marker \<open>i\<close> at the \<open>i\<close>-th injection site, where the sites are listed node by node
  in the order in which the finder delivers the nodes. Running the callback over the
  matches of one node numbers exactly the sites of that node from the current value of the
  counter on: first the left braces of the blocks in its body positions (then, else, loop
  body; the block of a label), then its fall-through site, which only a conditional, a
  loop or a switch has. In the order of the finder a node comes before every node below
  it: so the fall-through site of a switch is numbered before every site of a node inside
  the switch, the blocks of its labels included.
\<close>

theorem numbering_follows_match_order:
  "(instrument_matches cl tu = Inr st \<longrightarrow>
      Emitted (IOut st) =
        number_probes cl 0
          (concat (map (\<lambda>n. entry_requests cl n @ fallthrough_requests cl n)
                     (visited_nodes tu)))
      \<and> NFunctionsInserted st =
          length (concat (map (\<lambda>n. entry_requests cl n @ fallthrough_requests cl n)
                            (visited_nodes tu)))
      \<and> record_all cl (map snd (Emitted (IOut st))) (\<lambda>f. [])
          = Some (FileToReplacements (IOut st)))
   \<and> (run_matches (DCEInstrumenterTool_run cl)
         (match_node (DCEInstrumenterTool_registerMatchers cl) n) st0 = Inr st1 \<longrightarrow>
      Emitted (IOut st1) =
        Emitted (IOut st0) @
          number_probes cl (NFunctionsInserted st0)
            (entry_requests cl n @ fallthrough_requests cl n)
      \<and> NFunctionsInserted st1 =
          NFunctionsInserted st0 + length (entry_requests cl n @ fallthrough_requests cl n))
   \<and> (n \<in> set (visited_nodes tu) \<longrightarrow>
        (\<exists>pre post. visited_nodes tu = pre @ n # post \<and> set (descendants n) \<subseteq> set post))"
proof -
  have a: "Emitted (IOut st) =
        number_probes cl 0
          (concat (map (\<lambda>n. entry_requests cl n @ fallthrough_requests cl n)
                     (visited_nodes tu)))
      \<and> NFunctionsInserted st =
          length (concat (map (\<lambda>n. entry_requests cl n @ fallthrough_requests cl n)
                            (visited_nodes tu)))
      \<and> record_all cl (map snd (Emitted (IOut st))) (\<lambda>f. [])
          = Some (FileToReplacements (IOut st))"
    if m: "instrument_matches cl tu = Inr st"
  proof -
    from m have "run_matches (DCEInstrumenterTool_run cl)
        (matchAST (DCEInstrumenterTool_registerMatchers cl) tu) DCEInstrumenterTool_init = Inr st"
      by (simp add: instrument_matches_def)
    from run_instr_trace [OF this] instrument_matches_recorded [OF m] show ?thesis
      by (simp add: DCEInstrumenterTool_init_def Output_init_def probe_requests_matchAST)
  qed
  have b: "Emitted (IOut st1) =
        Emitted (IOut st0) @
          number_probes cl (NFunctionsInserted st0)
            (entry_requests cl n @ fallthrough_requests cl n)
      \<and> NFunctionsInserted st1 =
          NFunctionsInserted st0 + length (entry_requests cl n @ fallthrough_requests cl n)"
    if "run_matches (DCEInstrumenterTool_run cl)
         (match_node (DCEInstrumenterTool_registerMatchers cl) n) st0 = Inr st1"
    using run_instr_trace [OF that] by (simp add: probe_requests_node)
  from a b visited_nodes_split [of n tu] show ?thesis
    by blast
qed

section \<open>Labels\<close>

lemma group_labels_nonempty: "isa_SwitchCase g \<Longrightarrow> group_labels g \<noteq> []"
  by (cases g) auto

lemma group_labels_empty: "\<not> isa_SwitchCase g \<Longrightarrow> group_labels g = []"
  by (cases g) auto

lemma last_group_label:
  "isa_SwitchCase g \<Longrightarrow>
     isa_SwitchCase (last (group_labels g)) \<and> \<not> isa_SwitchCase (getSubStmt (last (group_labels g)))"
proof (induction g)
  case (SwitchCase k b e sub)
  then show ?case
    by (cases "isa_SwitchCase sub") (auto simp: group_labels_nonempty group_labels_empty)
qed simp_all


lemma group_matches:
  assumes "\<And>l. isa_SwitchCase l \<Longrightarrow> isa_SwitchCase (getSubStmt l) \<Longrightarrow> M l = []"
    and "isa_SwitchCase g"
  shows "concat (map M (group_labels g)) = M (last (group_labels g))"
  using assms(2)
proof (induction g)
  case (SwitchCase k b e sub)
  show ?case
  proof (cases "isa_SwitchCase sub")
    case True
    with assms(1) [of "SwitchCase k b e sub"] SwitchCase.IH [OF True] show ?thesis
      by (simp add: group_labels_nonempty)
  next
    case False
    then show ?thesis by (simp add: group_labels_empty)
  qed
qed simp_all


lemma instr_label_above_label:
  assumes "isa_SwitchCase l" and "isa_SwitchCase (getSubStmt l)"
  shows "match_node (DCEInstrumenterTool_registerMatchers cl) l = []"
  using assms by (cases l) (simp_all add: instr_match_label label_above_label)


text \<open>
  The same for the instrumenter: over the matches of a fallthrough group its callback is
  either nothing or one call of \<^verbatim>\<open>handleCompoundStmt\<close>, on the block below the last
  label.
\<close>

lemma fallthrough_group_run:
  assumes "isa_SwitchCase g"
  shows "run_matches (DCEInstrumenterTool_run cl)
           (concat (map (match_node (DCEInstrumenterTool_registerMatchers cl)) (group_labels g))) st
         = (if isExpansionInMainFile cl (last (group_labels g))
               \<and> \<not> hasDescendant isa_SwitchCase (last (group_labels g))
               \<and> isa_CompoundStmt (getSubStmt (last (group_labels g)))
            then handleCompoundStmt cl (getSubStmt (last (group_labels g))) st
            else Inr st)"
proof -
  let ?L = "last (group_labels g)"
  have "concat (map (match_node (DCEInstrumenterTool_registerMatchers cl)) (group_labels g))
      = match_node (DCEInstrumenterTool_registerMatchers cl) ?L"
    by (rule group_matches [OF _ assms]) (rule instr_label_above_label)
  moreover from last_group_label [OF assms] have "isa_SwitchCase ?L" by simp
  ultimately show ?thesis
    by (cases ?L) (auto simp: instr_match_label DCEInstrumenterTool_run_def split: sum.splits)
qed

section \<open>Locations in different files\<close>




section \<open>Bodies that are not blocks\<close>

lemma non_block_positions_run:
  assumes "\<forall>c \<in> set (body_positions n). \<not> isa_CompoundStmt c"
  shows "run_matches (DCEInstrumenterTool_run cl)
           (match_node (DCEInstrumenterTool_registerMatchers cl) n) st
         = (if isa_if_loop_switch n \<and> HasReturnDesc cl n
            then handleStmtWithReturnDescendant cl n st else Inr st)"
proof (cases n)
  case (SwitchCase k b e sub)
  with assms show ?thesis
    by (simp add: instr_match_label DCEInstrumenterTool_run_def)
next
  case (IfStmt b e t el)
  with assms show ?thesis
    by (cases el)
      (auto simp: match_node_def DCEInstrumenterTool_registerMatchers_def
        List.map_filter_simps switch_case_matcher_def ifStmt_hasThen_compoundStmt_def
        ifStmt_hasElse_compoundStmt_def loop_hasBody_compoundStmt_def
        stmt_with_return_descendant_matcher_def DCEInstrumenterTool_run_def
        split: sum.splits)
qed (use assms in \<open>auto simp: match_node_def DCEInstrumenterTool_registerMatchers_def
        List.map_filter_simps switch_case_matcher_def ifStmt_hasThen_compoundStmt_def
        ifStmt_hasElse_compoundStmt_def loop_hasBody_compoundStmt_def
        stmt_with_return_descendant_matcher_def DCEInstrumenterTool_run_def
        split: sum.splits\<close>)

lemma entry_requests_sites:
  assumes "q \<in> set (entry_requests cl n)"
  shows "\<exists>c \<in> set (body_positions n). isa_CompoundStmt c \<and> q = (getLBracLoc c, ''{'' @ newline)"
  using assms by (auto simp: entry_requests_def split: if_splits)

lemma fallthrough_requests_sites:
  assumes "q \<in> set (fallthrough_requests cl n)"
  shows "isa_if_loop_switch n \<and> HasReturnDesc cl n \<and> fst q = EndTokenLoc cl (getEndLoc n)"
  using assms by (auto simp: fallthrough_requests_def split: if_splits)

lemma fst_set_number_probes: "fst ` set (number_probes cl n qs) = fst ` set qs"
  using arg_cong [OF map_fst_number_probes [of cl n qs], of set]
  by (simp only: set_map)

lemma instrument_sites:
  assumes "instrument cl tu = Inr st" and "e \<in> set (Emitted (IOut st))"
  shows "fst e = getLocForStartOfFile cl (getMainFileID cl)
     \<or> (\<exists>n \<in> set (visited_nodes tu).
          (\<exists>c \<in> set (body_positions n). isa_CompoundStmt c \<and> fst e = getLBracLoc c)
          \<or> (isa_if_loop_switch n \<and> HasReturnDesc cl n \<and> fst e = EndTokenLoc cl (getEndLoc n)))"
proof -
  let ?F = "getLocForStartOfFile cl (getMainFileID cl)"
  let ?reqs = "concat (map (\<lambda>n. entry_requests cl n @ fallthrough_requests cl n)
                         (visited_nodes tu))"
  from assms(1) obtain st1 where m: "instrument_matches cl tu = Inr st1"
    and o: "DCEInstrumenterTool_onEndOfTranslationUnit cl st1 = Inr st"
    by (auto simp: instrument_split)
  from m have "run_matches (DCEInstrumenterTool_run cl)
      (matchAST (DCEInstrumenterTool_registerMatchers cl) tu) DCEInstrumenterTool_init = Inr st1"
    by (simp add: instrument_matches_def)
  from run_instr_trace [OF this] have em1: "Emitted (IOut st1) = number_probes cl 0 ?reqs"
    by (simp add: DCEInstrumenterTool_init_def Output_init_def probe_requests_matchAST)
  have "fst ` set (Emitted (IOut st)) \<subseteq> insert ?F (fst ` set (Emitted (IOut st1)))"
  proof (cases "0 < NFunctionsInserted st1")
    case True
    from onEnd_instr_Inr(2) [OF o True] show ?thesis by auto
  next
    case False
    with o have "st = st1"
      by (simp add: DCEInstrumenterTool_onEndOfTranslationUnit_def)
    then show ?thesis by auto
  qed
  moreover have "fst ` set (Emitted (IOut st1)) = fst ` set ?reqs"
    by (simp only: em1 fst_set_number_probes)
  ultimately have "fst e = ?F \<or> fst e \<in> fst ` set ?reqs"
    using assms(2) by auto
  then show ?thesis
  proof
    assume "fst e = ?F"
    then show ?thesis by simp
  next
    assume "fst e \<in> fst ` set ?reqs"
    then obtain q n where n: "n \<in> set (visited_nodes tu)"
      and q: "q \<in> set (entry_requests cl n) \<or> q \<in> set (fallthrough_requests cl n)"
      and f: "fst e = fst q"
      by auto
    from q show ?thesis
    proof
      assume "q \<in> set (entry_requests cl n)"
      from entry_requests_sites [OF this] f n show ?thesis
        by (metis fst_conv)
    next
      assume "q \<in> set (fallthrough_requests cl n)"
      from fallthrough_requests_sites [OF this] f n show ?thesis
        by metis
    qed
  qed
qed

text \<open>
  Claim C9, amended. The matchers of the instrumenter for the branches of a conditional and
  for the body of a loop bind nothing when that statement is not a block, and the callback
  leaves the state as it is, without an error, for a bound label whose statement is not a
  block. So for a construct none of whose body positions is a block, running the callback
  over its matches is only the call for the fall-through probe, if the construct has a
  \<^verbatim>\<open>return\<close> below it, and nothing otherwise. In a run that completes, every edit
  handed to \<^verbatim>\<open>Replacements::add\<close> is at the start of the main file, at the left brace of
  a block in a body position, or at the end boundary of a construct with a \<^verbatim>\<open>return\<close>
  below it: a body that is not a block gets no entry probe. (That the run completes is not
  part of the statement.)
\<close>

theorem non_compound_body_not_instrumented:
  "(\<not> isa_CompoundStmt t \<longrightarrow> ifStmt_hasThen_compoundStmt cl (IfStmt b e t el) = None)
   \<and> (\<not> isa_CompoundStmt x \<longrightarrow> ifStmt_hasElse_compoundStmt cl (IfStmt b e t (Some x)) = None)
   \<and> (\<not> isa_CompoundStmt body \<longrightarrow> loop_hasBody_compoundStmt cl (LoopStmt k b e body) = None)
   \<and> (\<not> isa_CompoundStmt sub \<longrightarrow>
        DCEInstrumenterTool_run cl (Bind_switch_case (SwitchCase lk b e sub)) st = Inr st
        \<and> instr_request cl (Bind_switch_case (SwitchCase lk b e sub)) = None)
   \<and> ((\<forall>c \<in> set (body_positions n). \<not> isa_CompoundStmt c) \<longrightarrow>
        run_matches (DCEInstrumenterTool_run cl)
          (match_node (DCEInstrumenterTool_registerMatchers cl) n) st
        = (if isa_if_loop_switch n \<and> HasReturnDesc cl n
           then handleStmtWithReturnDescendant cl n st else Inr st))
   \<and> (instrument cl tu = Inr ist \<longrightarrow>
        record_all cl (map snd (Emitted (IOut ist))) (\<lambda>f. [])
          = Some (FileToReplacements (IOut ist))
        \<and> (\<forall>e \<in> set (Emitted (IOut ist)).
             fst e = getLocForStartOfFile cl (getMainFileID cl)
             \<or> (\<exists>n \<in> set (visited_nodes tu).
                  (\<exists>c \<in> set (body_positions n). isa_CompoundStmt c \<and> fst e = getLBracLoc c)
                  \<or> (isa_if_loop_switch n \<and> HasReturnDesc cl n
                      \<and> fst e = EndTokenLoc cl (getEndLoc n)))))"
proof -
  have a: "(\<not> isa_CompoundStmt t \<longrightarrow> ifStmt_hasThen_compoundStmt cl (IfStmt b e t el) = None)
   \<and> (\<not> isa_CompoundStmt x \<longrightarrow> ifStmt_hasElse_compoundStmt cl (IfStmt b e t (Some x)) = None)
   \<and> (\<not> isa_CompoundStmt body \<longrightarrow> loop_hasBody_compoundStmt cl (LoopStmt k b e body) = None)
   \<and> (\<not> isa_CompoundStmt sub \<longrightarrow>
        DCEInstrumenterTool_run cl (Bind_switch_case (SwitchCase lk b e sub)) st = Inr st
        \<and> instr_request cl (Bind_switch_case (SwitchCase lk b e sub)) = None)"
    by (simp add: ifStmt_hasThen_compoundStmt_def ifStmt_hasElse_compoundStmt_def
        loop_hasBody_compoundStmt_def DCEInstrumenterTool_run_def instr_request_def)
  have c: "\<forall>e \<in> set (Emitted (IOut ist)).
             fst e = getLocForStartOfFile cl (getMainFileID cl)
             \<or> (\<exists>n \<in> set (visited_nodes tu).
                  (\<exists>c \<in> set (body_positions n). isa_CompoundStmt c \<and> fst e = getLBracLoc c)
                  \<or> (isa_if_loop_switch n \<and> HasReturnDesc cl n
                      \<and> fst e = EndTokenLoc cl (getEndLoc n)))"
    if "instrument cl tu = Inr ist"
    using instrument_sites [OF that] by blast
  from a non_block_positions_run [of n cl st] c instrument_recorded [of cl tu ist]
  show ?thesis
    by blast
qed

section \<open>The engine on the example programs\<close>

text \<open>
  The concrete collaborator answers through its functions on the token tables; the
  definitions of the engine are unfolded on a concrete tree with these answers as facts.
\<close>

lemma tok_clang_fields:
  "getMainFileID (tok_clang fs) = 1"
  "getFileID (tok_clang fs) L = L div 1000"
  "getSpellingLoc (tok_clang fs) L = L"
  "getExpansionLoc (tok_clang fs) L = L"
  "getDecomposedLoc (tok_clang fs) L = (L div 1000, L mod 1000)"
  "isInMainFile (tok_clang fs) L = (L div 1000 = 1)"
  "getLocForStartOfFile (tok_clang fs) fid = 1000 * fid"
  "getCharacterData (tok_clang fs) = tok_getCharacterData fs"
  "getFilename (tok_clang fs) = tok_getFilename fs"
  "MeasureTokenLength (tok_clang fs) = tok_MeasureTokenLength fs"
  "findNextToken (tok_clang fs) = tok_findNextToken fs"
  "GetBeginningOfToken (tok_clang fs) = tok_GetBeginningOfToken fs"
  "Replacements_add (tok_clang fs) = ledger_add"
  by (simp_all add: tok_clang_def)

lemmas engine_defs =
  tok_clang_fields
  instrument_def instrument_matches_def
  canonicalize_def canonicalize_matches_def
  matchAST_def visited_nodes_def match_node_def
  List.map_filter_simps
  DCEInstrumenterTool_registerMatchers_def DCECanonicalizerTool_registerMatchers_def
  ifStmt_hasThen_compoundStmt_def ifStmt_hasElse_compoundStmt_def loop_hasBody_compoundStmt_def
  ifStmt_hasThen_stmt_def ifStmt_hasElse_stmt_def loop_hasBody_stmt_def
  switch_case_matcher_def stmt_with_return_descendant_matcher_def HasReturnDesc_def
  hasDescendant_def isExpansionInMainFile_def
  DCEInstrumenterTool_run_def DCECanonicalizerTool_run_def
  handleCompoundStmt_def handleStmtWithReturnDescendant_def handleStmt_def
  getNewDCECallStr_def DCECallStr_def getLBracLoc_def EndTokenLoc_def
  DCEInstrumenterTool_onEndOfTranslationUnit_def DCECanonicalizerTool_onEndOfTranslationUnit_def
  forward_declarations_def
  addReplacementOrDie_def createReplacement_def Replacement_of_token_range_def isValid_def
  ledger_add_def spans_overlap_def
  DCEInstrumenterTool_init_def DCECanonicalizerTool_init_def Output_init_def
  result_of_def Let_def to_string_small newline_def
  probe_requests_def instr_request_def token_text_def is_braced_def
  entry_requests_def fallthrough_requests_def Replacement_invalid_def

subsection \<open>The canonical if-else program\<close>

text \<open>Witness for C4: the canonical if-else program of the tests.\<close>

theorem canonicalize_idempotent_witness:
  "list_all canonical ifelse_tu
   \<and> canonicalize (tok_clang ifelse_src) ifelse_tu = Inr DCECanonicalizerTool_init"
proof -
  have h: "list_all canonical ifelse_tu"
    by (simp add: ifelse_tu_def)
  then have "\<forall>body \<in> set ifelse_tu. canonical body"
    by (simp add: list_all_iff)
  from canonicalize_idempotent [OF this] h show ?thesis
    by simp
qed

subsection \<open>The loop whose body is a conditional\<close>






subsection \<open>A body that ends with a brace\<close>






subsection \<open>A label followed by two statements\<close>




subsection \<open>The switch of the instrumenter's test\<close>

lemma switch_lex:
  "tok_MeasureTokenLength switch_src 1000 = 3"
  "tok_MeasureTokenLength switch_src 1162 = 1"
  "tok_MeasureTokenLength switch_src 1044 = 1"
  "tok_MeasureTokenLength switch_src 1103 = 1"
  "tok_MeasureTokenLength switch_src 1127 = 1"
  "tok_MeasureTokenLength switch_src 1149 = 1"
  "tok_MeasureTokenLength switch_src 1082 = 1"
  "tok_findNextToken switch_src 1162 = Some (Token False 1164)"
  "tok_GetBeginningOfToken switch_src 1162 = 1162"
  "tok_getCharacterData switch_src 1000 = Some ''int foo ( int a ) { switch ( a ) { case 1 : { a = 2 ; } break ; case 2 : case 3 : { break ; } case 4 : { return 3 ; } case 5 : { a = 5 ; } default : { a = 42 ; } } return a ; }''"
  "tok_getCharacterData switch_src 1162 = Some ''} return a ; }''"
  "tok_getFilename switch_src (Suc 0) = Some ''input.cc''"
  by code_simp+

lemmas switch_defs = switch_tu_def switch_stmt_def switch_group_def

text \<open>
  The expected output of the test \<^verbatim>\<open>DCEInstrumentTool switch\<close>: marker 0 after the
  switch, 1 in the block of \<^verbatim>\<open>case 1\<close>, 2 in that of \<^verbatim>\<open>case 4\<close>, 3 in that of
  \<^verbatim>\<open>case 5\<close>, 4 in that of \<^verbatim>\<open>default\<close> and 5 in the block of \<^verbatim>\<open>case 3\<close>.
\<close>

lemma finder_order_switch_test:
  "result_of (Emitted \<circ> IOut) (instrument (tok_clang switch_src) switch_tu) =
     Some [(1162, \<lparr>FilePath = ''input.cc'', Offset = 162, Length = 1,
                    ReplacementText = ''}'' @ newline @ ''DCEMarker0_();''\<rparr>),
           (1044, \<lparr>FilePath = ''input.cc'', Offset = 44, Length = 1,
                    ReplacementText = ''{'' @ newline @ ''DCEMarker1_();''\<rparr>),
           (1103, \<lparr>FilePath = ''input.cc'', Offset = 103, Length = 1,
                    ReplacementText = ''{'' @ newline @ ''DCEMarker2_();''\<rparr>),
           (1127, \<lparr>FilePath = ''input.cc'', Offset = 127, Length = 1,
                    ReplacementText = ''{'' @ newline @ ''DCEMarker3_();''\<rparr>),
           (1149, \<lparr>FilePath = ''input.cc'', Offset = 149, Length = 1,
                    ReplacementText = ''{'' @ newline @ ''DCEMarker4_();''\<rparr>),
           (1082, \<lparr>FilePath = ''input.cc'', Offset = 82, Length = 1,
                    ReplacementText = ''{'' @ newline @ ''DCEMarker5_();''\<rparr>),
           (1000, \<lparr>FilePath = ''input.cc'', Offset = 0, Length = 3,
                    ReplacementText =
                      ''void DCEMarker0_(void);'' @ newline @ ''void DCEMarker1_(void);'' @ newline
                      @ ''void DCEMarker2_(void);'' @ newline @ ''void DCEMarker3_(void);'' @ newline
                      @ ''void DCEMarker4_(void);'' @ newline @ ''void DCEMarker5_(void);'' @ newline
                      @ ''int''\<rparr>)]"
  by (simp add: engine_defs switch_defs switch_lex)

text \<open>The edit set of the file after that run, in the order of the offsets.\<close>

lemma switch_edit_set:
  "result_of (\<lambda>st. FileToReplacements (IOut st) ''input.cc'')
     (instrument (tok_clang switch_src) switch_tu) =
     Some [\<lparr>FilePath = ''input.cc'', Offset = 0, Length = 3,
             ReplacementText =
               ''void DCEMarker0_(void);'' @ newline @ ''void DCEMarker1_(void);'' @ newline
               @ ''void DCEMarker2_(void);'' @ newline @ ''void DCEMarker3_(void);'' @ newline
               @ ''void DCEMarker4_(void);'' @ newline @ ''void DCEMarker5_(void);'' @ newline
               @ ''int''\<rparr>,
           \<lparr>FilePath = ''input.cc'', Offset = 44, Length = 1,
             ReplacementText = ''{'' @ newline @ ''DCEMarker1_();''\<rparr>,
           \<lparr>FilePath = ''input.cc'', Offset = 82, Length = 1,
             ReplacementText = ''{'' @ newline @ ''DCEMarker5_();''\<rparr>,
           \<lparr>FilePath = ''input.cc'', Offset = 103, Length = 1,
             ReplacementText = ''{'' @ newline @ ''DCEMarker2_();''\<rparr>,
           \<lparr>FilePath = ''input.cc'', Offset = 127, Length = 1,
             ReplacementText = ''{'' @ newline @ ''DCEMarker3_();''\<rparr>,
           \<lparr>FilePath = ''input.cc'', Offset = 149, Length = 1,
             ReplacementText = ''{'' @ newline @ ''DCEMarker4_();''\<rparr>,
           \<lparr>FilePath = ''input.cc'', Offset = 162, Length = 1,
             ReplacementText = ''}'' @ newline @ ''DCEMarker0_();''\<rparr>]"
  by (simp add: engine_defs switch_defs switch_lex)

lemma switch_count:
  "result_of NFunctionsInserted (instrument (tok_clang switch_src) switch_tu) = Some 6"
  by (simp add: engine_defs switch_defs switch_lex)

lemma switch_sites:
  "result_of (map fst \<circ> Emitted \<circ> IOut) (instrument_matches (tok_clang switch_src) switch_tu)
     = Some [1162, 1044, 1103, 1127, 1149, 1082]"
  by (simp add: engine_defs switch_defs switch_lex)

text \<open>
  Witness for C2: the six probes of the test and their declarations, and the edit set
  they make.
\<close>

theorem probe_conservation_witness:
  "result_of NFunctionsInserted (instrument (tok_clang switch_src) switch_tu) = Some 6
   \<and> length (probe_requests (tok_clang switch_src)
        (matchAST (DCEInstrumenterTool_registerMatchers (tok_clang switch_src)) switch_tu)) = 6
   \<and> result_of (length \<circ> Emitted \<circ> IOut) (instrument (tok_clang switch_src) switch_tu) = Some 7
   \<and> result_of
       (\<lambda>st. record_all (tok_clang switch_src) (map snd (Emitted (IOut st))) (\<lambda>f. [])
                = Some (FileToReplacements (IOut st)))
       (instrument (tok_clang switch_src) switch_tu) = Some True
   \<and> result_of (map (Offset \<circ> snd) \<circ> Emitted \<circ> IOut)
       (instrument (tok_clang switch_src) switch_tu) = Some [162, 44, 103, 127, 149, 82, 0]
   \<and> result_of (\<lambda>st. map Offset (FileToReplacements (IOut st) ''input.cc''))
       (instrument (tok_clang switch_src) switch_tu) = Some [0, 44, 82, 103, 127, 149, 162]"
proof -
  let ?C = "tok_clang switch_src"
  from switch_count obtain st where
    st: "instrument ?C switch_tu = Inr st" and n6: "NFunctionsInserted st = 6"
    by (auto simp: result_of_def split: sum.splits)
  from n6 have pos: "0 < NFunctionsInserted st" by simp
  note pc = probe_conservation [OF st pos]
  from pc n6 have
    a: "length (probe_requests ?C (matchAST (DCEInstrumenterTool_registerMatchers ?C) switch_tu)) = 6"
    by simp
  from pc n6 have b: "length (Emitted (IOut st)) = 7"
    by simp
  from pc have c: "record_all ?C (map snd (Emitted (IOut st))) (\<lambda>f. [])
      = Some (FileToReplacements (IOut st))"
    by blast
  from finder_order_switch_test st have d: "map (Offset \<circ> snd) (Emitted (IOut st))
      = [162, 44, 103, 127, 149, 82, 0]"
    by (simp add: result_of_def)
  from switch_edit_set st have e: "map Offset (FileToReplacements (IOut st) ''input.cc'')
      = [0, 44, 82, 103, 127, 149, 162]"
    by (simp add: result_of_def)
  from n6 a b c d e st show ?thesis by (simp add: result_of_def)
qed

text \<open>
  Counterexample to C3 as stated: a single pre-order walk would reach the block of
  \<^verbatim>\<open>case 3\<close> right after \<^verbatim>\<open>case 2\<close> and give it marker 2; the engine gives it marker 5,
  as the repository's test expects. And marker 0 is the fall-through probe of the switch,
  at its closing brace (offset 162): it is numbered before the blocks of the labels.
\<close>

theorem preorder_numbering_counterexample:
  "result_of (map fst \<circ> Emitted \<circ> IOut) (instrument_matches (tok_clang switch_src) switch_tu)
     = Some [1162, 1044, 1103, 1127, 1149, 1082]
   \<and> result_of (map fst \<circ> Emitted \<circ> IOut)
       (instrument_matches_preorder (tok_clang switch_src) switch_tu)
     = Some [1162, 1044, 1082, 1103, 1127, 1149]
   \<and> instrument_matches (tok_clang switch_src) switch_tu
       \<noteq> instrument_matches_preorder (tok_clang switch_src) switch_tu
   \<and> EndTokenLoc (tok_clang switch_src) (getEndLoc switch_stmt) = 1162
   \<and> result_of (map (ReplacementText \<circ> snd) \<circ> take 2 \<circ> Emitted \<circ> IOut)
       (instrument_matches (tok_clang switch_src) switch_tu)
     = Some [''}'' @ newline @ ''DCEMarker0_();'', ''{'' @ newline @ ''DCEMarker1_();'']"
proof -
  have p: "result_of (map fst \<circ> Emitted \<circ> IOut)
       (instrument_matches_preorder (tok_clang switch_src) switch_tu)
     = Some [1162, 1044, 1082, 1103, 1127, 1149]"
    by (simp add: engine_defs switch_defs switch_lex
        instrument_matches_preorder_def matchAST_preorder_def preorder_nodes_def)
  from switch_sites p have "instrument_matches (tok_clang switch_src) switch_tu
       \<noteq> instrument_matches_preorder (tok_clang switch_src) switch_tu"
    by (metis list.inject option.inject numeral_eq_iff semiring_norm(88,89,90) num.inject)
  moreover have "EndTokenLoc (tok_clang switch_src) (getEndLoc switch_stmt) = 1162"
    by (simp add: engine_defs switch_defs switch_lex)
  moreover have "result_of (map (ReplacementText \<circ> snd) \<circ> take 2 \<circ> Emitted \<circ> IOut)
       (instrument_matches (tok_clang switch_src) switch_tu)
     = Some [''}'' @ newline @ ''DCEMarker0_();'', ''{'' @ newline @ ''DCEMarker1_();'']"
    by (simp add: engine_defs switch_defs switch_lex)
  ultimately show ?thesis using switch_sites p by simp
qed

subsection \<open>A loop whose body is a conditional with a return\<close>

lemma whileif_lex:
  "tok_MeasureTokenLength whileif_src 1054 = 1"
  "tok_MeasureTokenLength whileif_src 1041 = 1"
  "tok_MeasureTokenLength whileif_src 1000 = 3"
  "tok_findNextToken whileif_src 1054 = Some (Token False 1056)"
  "tok_GetBeginningOfToken whileif_src 1054 = 1054"
  "tok_getCharacterData whileif_src 1054 = Some ''} return 0 ; }''"
  "tok_getCharacterData whileif_src 1000 = Some ''int foo ( int a ) { while ( a ) if ( a ) { return 1 ; } return 0 ; }''"
  "tok_getFilename whileif_src (Suc 0) = Some ''input.cc''"
  by code_simp+

lemmas whileif_defs = whileif_tu_def whileif_loop_def whileif_if_def

lemma whileif_if_alone:
  "result_of (\<lambda>st. (NFunctionsInserted st, Emitted (IOut st)))
     (run_matches (DCEInstrumenterTool_run (tok_clang whileif_src))
        (match_node (DCEInstrumenterTool_registerMatchers (tok_clang whileif_src)) whileif_if)
        DCEInstrumenterTool_init)
   = Some (2,
       [(1041, \<lparr>FilePath = ''input.cc'', Offset = 41, Length = 1,
                 ReplacementText = ''{'' @ newline @ ''DCEMarker0_();''\<rparr>),
        (1054, \<lparr>FilePath = ''input.cc'', Offset = 54, Length = 1,
                 ReplacementText = ''}'' @ newline @ ''DCEMarker1_();''\<rparr>)])"
  by (simp add: engine_defs whileif_defs whileif_lex)

lemma switch_stmt_alone:
  "result_of (\<lambda>st. (NFunctionsInserted st, Emitted (IOut st)))
     (run_matches (DCEInstrumenterTool_run (tok_clang switch_src))
        (match_node (DCEInstrumenterTool_registerMatchers (tok_clang switch_src)) switch_stmt)
        DCEInstrumenterTool_init)
   = Some (1,
       [(1162, \<lparr>FilePath = ''input.cc'', Offset = 162, Length = 1,
                 ReplacementText = ''}'' @ newline @ ''DCEMarker0_();''\<rparr>)])"
  by (simp add: engine_defs switch_defs switch_lex)

text \<open>
  Witness for the amended C3: the sites of the test in the order of their ids; the switch
  of the test, which comes before every node below it and whose only site is its
  fall-through site; and the conditional \<^verbatim>\<open>if (a){ return 1; }\<close>, whose block is numbered
  before its fall-through site.
\<close>

theorem numbering_follows_match_order_witness:
  "result_of (map fst \<circ> Emitted \<circ> IOut) (instrument_matches (tok_clang switch_src) switch_tu)
     = Some (map fst (concat (map (\<lambda>n. entry_requests (tok_clang switch_src) n
                                       @ fallthrough_requests (tok_clang switch_src) n)
                                (visited_nodes switch_tu))))
   \<and> map fst (concat (map (\<lambda>n. entry_requests (tok_clang switch_src) n
                               @ fallthrough_requests (tok_clang switch_src) n)
                        (visited_nodes switch_tu)))
     = [1162, 1044, 1103, 1127, 1149, 1082]
   \<and> entry_requests (tok_clang switch_src) switch_stmt
       @ fallthrough_requests (tok_clang switch_src) switch_stmt = [(1162, ''}'' @ newline)]
   \<and> result_of (Emitted \<circ> IOut)
       (run_matches (DCEInstrumenterTool_run (tok_clang switch_src))
          (match_node (DCEInstrumenterTool_registerMatchers (tok_clang switch_src)) switch_stmt)
          DCEInstrumenterTool_init)
     = Some (number_probes (tok_clang switch_src) 0 [(1162, ''}'' @ newline)])
   \<and> switch_stmt \<in> set (visited_nodes switch_tu)
   \<and> (\<exists>pre post. visited_nodes switch_tu = pre @ switch_stmt # post
         \<and> set (descendants switch_stmt) \<subseteq> set post)
   \<and> entry_requests (tok_clang whileif_src) whileif_if
       @ fallthrough_requests (tok_clang whileif_src) whileif_if
     = [(1041, ''{'' @ newline), (1054, ''}'' @ newline)]
   \<and> result_of (Emitted \<circ> IOut)
       (run_matches (DCEInstrumenterTool_run (tok_clang whileif_src))
          (match_node (DCEInstrumenterTool_registerMatchers (tok_clang whileif_src)) whileif_if)
          DCEInstrumenterTool_init)
     = Some (number_probes (tok_clang whileif_src) 0
               [(1041, ''{'' @ newline), (1054, ''}'' @ newline)])"
proof -
  let ?C = "tok_clang switch_src"
  let ?W = "tok_clang whileif_src"
  from switch_sites obtain st where st: "instrument_matches ?C switch_tu = Inr st"
    by (auto simp: result_of_def split: sum.splits)
  from switch_stmt_alone obtain s1 where s1: "run_matches (DCEInstrumenterTool_run ?C)
      (match_node (DCEInstrumenterTool_registerMatchers ?C) switch_stmt)
      DCEInstrumenterTool_init = Inr s1"
    by (auto simp: result_of_def split: sum.splits)
  from whileif_if_alone obtain s2 where s2: "run_matches (DCEInstrumenterTool_run ?W)
      (match_node (DCEInstrumenterTool_registerMatchers ?W) whileif_if)
      DCEInstrumenterTool_init = Inr s2"
    by (auto simp: result_of_def split: sum.splits)
  have v: "switch_stmt \<in> set (visited_nodes switch_tu)"
    by (simp add: visited_nodes_def switch_tu_def)
  have r1: "entry_requests ?C switch_stmt @ fallthrough_requests ?C switch_stmt
      = [(1162, ''}'' @ newline)]"
    by (simp add: engine_defs switch_defs switch_lex)
  have r2: "entry_requests ?W whileif_if @ fallthrough_requests ?W whileif_if
      = [(1041, ''{'' @ newline), (1054, ''}'' @ newline)]"
    by (simp add: engine_defs whileif_defs whileif_lex)
  have all: "map fst (concat (map (\<lambda>n. entry_requests ?C n @ fallthrough_requests ?C n)
                               (visited_nodes switch_tu)))
     = [1162, 1044, 1103, 1127, 1149, 1082]"
    by (simp add: engine_defs switch_defs switch_lex)
  note t = numbering_follows_match_order
    [where cl = ?C and tu = switch_tu and st = st and n = switch_stmt
       and ?st0.0 = DCEInstrumenterTool_init and ?st1.0 = s1]
  note u = numbering_follows_match_order
    [where cl = ?W and n = whileif_if
       and ?st0.0 = DCEInstrumenterTool_init and ?st1.0 = s2]
  from t st have "Emitted (IOut st) = number_probes ?C 0
      (concat (map (\<lambda>n. entry_requests ?C n @ fallthrough_requests ?C n)
                 (visited_nodes switch_tu)))"
    by blast
  then have a: "map fst (Emitted (IOut st)) =
      map fst (concat (map (\<lambda>n. entry_requests ?C n @ fallthrough_requests ?C n)
                         (visited_nodes switch_tu)))"
    by (simp only: map_fst_number_probes)
  from t s1 have "Emitted (IOut s1) = Emitted (IOut DCEInstrumenterTool_init) @
      number_probes ?C (NFunctionsInserted DCEInstrumenterTool_init)
        (entry_requests ?C switch_stmt @ fallthrough_requests ?C switch_stmt)"
    by blast
  then have b: "Emitted (IOut s1) = number_probes ?C 0 [(1162, ''}'' @ newline)]"
    by (simp only: r1) (simp add: DCEInstrumenterTool_init_def Output_init_def)
  from t v have c: "\<exists>pre post. visited_nodes switch_tu = pre @ switch_stmt # post
      \<and> set (descendants switch_stmt) \<subseteq> set post"
    by blast
  from u s2 have "Emitted (IOut s2) = Emitted (IOut DCEInstrumenterTool_init) @
      number_probes ?W (NFunctionsInserted DCEInstrumenterTool_init)
        (entry_requests ?W whileif_if @ fallthrough_requests ?W whileif_if)"
    by blast
  then have d: "Emitted (IOut s2) = number_probes ?W 0
      [(1041, ''{'' @ newline), (1054, ''}'' @ newline)]"
    by (simp only: r2) (simp add: DCEInstrumenterTool_init_def Output_init_def)
  from st s1 s2 a b d have
    "result_of (map fst \<circ> Emitted \<circ> IOut) (instrument_matches ?C switch_tu)
       = Some (map fst (concat (map (\<lambda>n. entry_requests ?C n @ fallthrough_requests ?C n)
                                  (visited_nodes switch_tu))))"
    "result_of (Emitted \<circ> IOut)
       (run_matches (DCEInstrumenterTool_run ?C)
          (match_node (DCEInstrumenterTool_registerMatchers ?C) switch_stmt)
          DCEInstrumenterTool_init)
     = Some (number_probes ?C 0 [(1162, ''}'' @ newline)])"
    "result_of (Emitted \<circ> IOut)
       (run_matches (DCEInstrumenterTool_run ?W)
          (match_node (DCEInstrumenterTool_registerMatchers ?W) whileif_if)
          DCEInstrumenterTool_init)
     = Some (number_probes ?W 0 [(1041, ''{'' @ newline), (1054, ''}'' @ newline)])"
    by (simp_all add: result_of_def)
  with all r1 r2 v c show ?thesis
    by blast
qed

subsection \<open>A switch inside the block of a fallthrough group\<close>

lemma nested_lex:
  "tok_MeasureTokenLength nested_src 1088 = 1"
  "tok_MeasureTokenLength nested_src 1000 = 4"
  "tok_getCharacterData nested_src 1000 = Some ''void foo ( int a , int b ) { switch ( a ) { case 1 : case 2 : { switch ( b ) { case 3 : { } } } } }''"
  "tok_getFilename nested_src (Suc 0) = Some ''input.cc''"
  by code_simp+

text \<open>
  Claim C7 on the code: the program is in canonical form, the group \<^verbatim>\<open>case 1: case 2:\<close>
  shares one block (its brace at offset 62), and the instrumenter puts no probe there: both
  labels have the label \<^verbatim>\<open>case 3\<close> below them and are not matched. The only probe is in
  the block of \<^verbatim>\<open>case 3\<close> (offset 88). In the switch of the test above, where no label
  stands inside the block of the group \<^verbatim>\<open>case 2: case 3:\<close>, that block gets its one probe
  (marker 5 at offset 82).
\<close>

theorem nested_switch_group_unprobed:
  "list_all canonical nested_tu
   \<and> group_labels nested_group = [nested_group, getSubStmt nested_group]
   \<and> isa_CompoundStmt (getSubStmt (last (group_labels nested_group)))
   \<and> getLBracLoc (getSubStmt (last (group_labels nested_group))) = 1062
   \<and> result_of (Emitted \<circ> IOut) (instrument (tok_clang nested_src) nested_tu)
     = Some [(1088, \<lparr>FilePath = ''input.cc'', Offset = 88, Length = 1,
                      ReplacementText = ''{'' @ newline @ ''DCEMarker0_();''\<rparr>),
             (1000, \<lparr>FilePath = ''input.cc'', Offset = 0, Length = 4,
                      ReplacementText = ''void DCEMarker0_(void);'' @ newline @ ''void''\<rparr>)]
   \<and> result_of (\<lambda>st. FileToReplacements (IOut st) ''input.cc'')
       (instrument (tok_clang nested_src) nested_tu)
     = Some [\<lparr>FilePath = ''input.cc'', Offset = 0, Length = 4,
               ReplacementText = ''void DCEMarker0_(void);'' @ newline @ ''void''\<rparr>,
             \<lparr>FilePath = ''input.cc'', Offset = 88, Length = 1,
               ReplacementText = ''{'' @ newline @ ''DCEMarker0_();''\<rparr>]
   \<and> result_of (\<lambda>st. count_list (map fst (Emitted (IOut st))) 1062)
       (instrument (tok_clang nested_src) nested_tu) = Some 0"
  by (simp add: engine_defs nested_tu_def nested_group_def nested_lex)

subsection \<open>A body that ends in an included file\<close>





subsection \<open>Bodies that are not blocks\<close>

text \<open>
  Counterexample to C9 as stated: the body of the loop is a conditional, not a block, and
  both have the \<^verbatim>\<open>return\<close> below them and end at the same closing brace (offset 54).
  The fall-through probes of the loop and of the conditional are two different replacements
  of that brace; \<^verbatim>\<open>Replacements::add\<close> rejects the second one and the run ends with
  that error.
\<close>

theorem non_block_body_counterexample:
  "body_positions whileif_loop = [whileif_if]
   \<and> \<not> isa_CompoundStmt whileif_if
   \<and> instrument (tok_clang whileif_src) whileif_tu
     = Inl (ReplacementError
              \<lparr>FilePath = ''input.cc'', Offset = 54, Length = 1,
                 ReplacementText = ''}'' @ newline @ ''DCEMarker2_();''\<rparr>)"
  by (simp add: engine_defs whileif_defs whileif_lex)

lemma forif_instrumented:
  "result_of (\<lambda>st. (NFunctionsInserted st, Emitted (IOut st), errs (IOut st)))
     (instrument (tok_clang forif_src) forif_tu) = Some (0, [], [])"
  by (simp add: engine_defs forif_tu_def)

lemma whileif_loop_alone:
  "result_of (Emitted \<circ> IOut)
     (handleStmtWithReturnDescendant (tok_clang whileif_src) whileif_loop
        DCEInstrumenterTool_init)
   = Some [(1054, \<lparr>FilePath = ''input.cc'', Offset = 54, Length = 1,
                    ReplacementText = ''}'' @ newline @ ''DCEMarker0_();''\<rparr>)]"
  by (simp add: engine_defs whileif_defs whileif_lex)

text \<open>
  Witness for the amended C9: the matchers and the callback on the bodies of
  \<^verbatim>\<open>for(;;) if (a > 0) a = 1;\<close>, on which the instrumenter ends without an edit, an
  id or a diagnostic; the loop \<^verbatim>\<open>while(a) if (a){ return 1; }\<close>, whose only probe is the
  fall-through probe; and the edits of the run on the switch of the test.
\<close>

theorem non_compound_body_not_instrumented_witness:
  "\<not> isa_CompoundStmt (OtherStmt 1045 1049 [])
   \<and> ifStmt_hasThen_compoundStmt (tok_clang forif_src)
        (IfStmt 1032 1049 (OtherStmt 1045 1049 []) None) = None
   \<and> ifStmt_hasElse_compoundStmt (tok_clang forif_src)
        (IfStmt 1032 1049 (OtherStmt 1045 1049 []) (Some (OtherStmt 1045 1049 []))) = None
   \<and> \<not> isa_CompoundStmt (IfStmt 1032 1049 (OtherStmt 1045 1049 []) None)
   \<and> loop_hasBody_compoundStmt (tok_clang forif_src)
        (LoopStmt ForStmt 1032 1049 (IfStmt 1032 1049 (OtherStmt 1045 1049 []) None)) = None
   \<and> DCEInstrumenterTool_run (tok_clang forif_src)
        (Bind_switch_case (SwitchCase CaseStmt 1032 1049 (OtherStmt 1045 1049 [])))
        DCEInstrumenterTool_init = Inr DCEInstrumenterTool_init
   \<and> result_of (\<lambda>st. (NFunctionsInserted st, Emitted (IOut st), errs (IOut st)))
        (instrument (tok_clang forif_src) forif_tu) = Some (0, [], [])
   \<and> list_all (\<lambda>c. \<not> isa_CompoundStmt c) (body_positions whileif_loop)
   \<and> result_of (Emitted \<circ> IOut)
       (run_matches (DCEInstrumenterTool_run (tok_clang whileif_src))
          (match_node (DCEInstrumenterTool_registerMatchers (tok_clang whileif_src)) whileif_loop)
          DCEInstrumenterTool_init)
     = Some [(1054, \<lparr>FilePath = ''input.cc'', Offset = 54, Length = 1,
                      ReplacementText = ''}'' @ newline @ ''DCEMarker0_();''\<rparr>)]
   \<and> result_of
       (\<lambda>st. record_all (tok_clang switch_src) (map snd (Emitted (IOut st))) (\<lambda>f. [])
                = Some (FileToReplacements (IOut st)))
       (instrument (tok_clang switch_src) switch_tu) = Some True
   \<and> result_of
       (\<lambda>st. list_all
          (\<lambda>e. fst e = getLocForStartOfFile (tok_clang switch_src)
                          (getMainFileID (tok_clang switch_src))
             \<or> (\<exists>n \<in> set (visited_nodes switch_tu).
                  (\<exists>c \<in> set (body_positions n). isa_CompoundStmt c \<and> fst e = getLBracLoc c)
                  \<or> (isa_if_loop_switch n \<and> HasReturnDesc (tok_clang switch_src) n
                      \<and> fst e = EndTokenLoc (tok_clang switch_src) (getEndLoc n))))
          (Emitted (IOut st)))
       (instrument (tok_clang switch_src) switch_tu) = Some True"
proof -
  let ?C = "tok_clang forif_src"
  let ?W = "tok_clang whileif_src"
  let ?S = "tok_clang switch_src"
  let ?a = "OtherStmt 1045 1049 []"
  let ?i = "IfStmt 1032 1049 ?a None"
  have na: "\<not> isa_CompoundStmt ?a" and ni: "\<not> isa_CompoundStmt ?i"
    by simp_all
  note t = non_compound_body_not_instrumented
    [where t = ?a and x = ?a and body = ?i and sub = ?a and cl = ?C
       and b = 1032 and e = 1049 and el = None and k = ForStmt and lk = CaseStmt
       and st = DCEInstrumenterTool_init]
  have 1: "ifStmt_hasThen_compoundStmt ?C (IfStmt 1032 1049 ?a None) = None"
    using t na by blast
  have 2: "ifStmt_hasElse_compoundStmt ?C (IfStmt 1032 1049 ?a (Some ?a)) = None"
    using t na by blast
  have 3: "loop_hasBody_compoundStmt ?C (LoopStmt ForStmt 1032 1049 ?i) = None"
    using t ni by blast
  have 4: "DCEInstrumenterTool_run ?C (Bind_switch_case (SwitchCase CaseStmt 1032 1049 ?a))
      DCEInstrumenterTool_init = Inr DCEInstrumenterTool_init"
    using t na by blast
  have nb: "\<forall>c \<in> set (body_positions whileif_loop). \<not> isa_CompoundStmt c"
    and nb': "list_all (\<lambda>c. \<not> isa_CompoundStmt c) (body_positions whileif_loop)"
    and rd: "isa_if_loop_switch whileif_loop \<and> HasReturnDesc ?W whileif_loop"
    by (simp_all add: whileif_defs engine_defs)
  note u = non_compound_body_not_instrumented
    [where cl = ?W and n = whileif_loop and st = DCEInstrumenterTool_init]
  from u nb have "run_matches (DCEInstrumenterTool_run ?W)
      (match_node (DCEInstrumenterTool_registerMatchers ?W) whileif_loop)
      DCEInstrumenterTool_init
      = (if isa_if_loop_switch whileif_loop \<and> HasReturnDesc ?W whileif_loop
         then handleStmtWithReturnDescendant ?W whileif_loop DCEInstrumenterTool_init
         else Inr DCEInstrumenterTool_init)"
    by blast
  with rd have "run_matches (DCEInstrumenterTool_run ?W)
      (match_node (DCEInstrumenterTool_registerMatchers ?W) whileif_loop)
      DCEInstrumenterTool_init
      = handleStmtWithReturnDescendant ?W whileif_loop DCEInstrumenterTool_init"
    by (simp only: if_True simp_thms)
  with whileif_loop_alone have 5: "result_of (Emitted \<circ> IOut)
       (run_matches (DCEInstrumenterTool_run ?W)
          (match_node (DCEInstrumenterTool_registerMatchers ?W) whileif_loop)
          DCEInstrumenterTool_init)
     = Some [(1054, \<lparr>FilePath = ''input.cc'', Offset = 54, Length = 1,
                      ReplacementText = ''}'' @ newline @ ''DCEMarker0_();''\<rparr>)]"
    by (simp only:)
  from switch_count obtain ist where ist: "instrument ?S switch_tu = Inr ist"
    by (auto simp: result_of_def split: sum.splits)
  note w = non_compound_body_not_instrumented
    [where cl = ?S and tu = switch_tu and ist = ist]
  from w ist have 6: "record_all ?S (map snd (Emitted (IOut ist))) (\<lambda>f. [])
      = Some (FileToReplacements (IOut ist))"
    by blast
  from w ist have "\<forall>e \<in> set (Emitted (IOut ist)).
      fst e = getLocForStartOfFile ?S (getMainFileID ?S)
      \<or> (\<exists>n \<in> set (visited_nodes switch_tu).
           (\<exists>c \<in> set (body_positions n). isa_CompoundStmt c \<and> fst e = getLBracLoc c)
           \<or> (isa_if_loop_switch n \<and> HasReturnDesc ?S n
               \<and> fst e = EndTokenLoc ?S (getEndLoc n)))"
    by blast
  then have 7: "list_all
      (\<lambda>e. fst e = getLocForStartOfFile ?S (getMainFileID ?S)
         \<or> (\<exists>n \<in> set (visited_nodes switch_tu).
              (\<exists>c \<in> set (body_positions n). isa_CompoundStmt c \<and> fst e = getLBracLoc c)
              \<or> (isa_if_loop_switch n \<and> HasReturnDesc ?S n
                  \<and> fst e = EndTokenLoc ?S (getEndLoc n))))
      (Emitted (IOut ist))"
    by (simp only: list_all_iff)
  from ist 6 7 have 8:
    "result_of
       (\<lambda>st. record_all ?S (map snd (Emitted (IOut st))) (\<lambda>f. [])
                = Some (FileToReplacements (IOut st)))
       (instrument ?S switch_tu) = Some True"
    "result_of
       (\<lambda>st. list_all
          (\<lambda>e. fst e = getLocForStartOfFile ?S (getMainFileID ?S)
             \<or> (\<exists>n \<in> set (visited_nodes switch_tu).
                  (\<exists>c \<in> set (body_positions n). isa_CompoundStmt c \<and> fst e = getLBracLoc c)
                  \<or> (isa_if_loop_switch n \<and> HasReturnDesc ?S n
                      \<and> fst e = EndTokenLoc ?S (getEndLoc n))))
          (Emitted (IOut st)))
       (instrument ?S switch_tu) = Some True"
    by (simp_all add: result_of_def)
  from na ni 1 2 3 4 forif_instrumented nb' 5 8 show ?thesis
    by blast
qed

subsection \<open>A block that lies in an included file\<close>

lemma included_lex:
  "tok_MeasureTokenLength included_src 2000 = 1"
  "tok_MeasureTokenLength included_src 1000 = 4"
  "tok_getCharacterData included_src 1000 = Some ''void f ( int a ) { if ( a ) # include <body.inc> }''"
  "tok_getFilename included_src (Suc 0) = Some ''input.cc''"
  "tok_getFilename included_src 2 = Some ''body.inc''"
  by code_simp+

text \<open>
  Claim C10 on the code: the conditional expands in the main file, its block is spelled in
  \<^verbatim>\<open>body.inc\<close>, and the entry probe of the instrumenter is an edit of the included
  file. (The closing brace the canonicalizer owes for a body that ends in an included file
  is another.)
\<close>

theorem included_block_is_edited:
  "isExpansionInMainFile (tok_clang included_src) included_if
   \<and> result_of (map snd \<circ> Emitted \<circ> IOut) (instrument (tok_clang included_src) included_tu)
     = Some [\<lparr>FilePath = ''body.inc'', Offset = 0, Length = 1,
                ReplacementText = ''{'' @ newline @ ''DCEMarker0_();''\<rparr>,
             \<lparr>FilePath = ''input.cc'', Offset = 0, Length = 4,
                ReplacementText = ''void DCEMarker0_(void);'' @ newline @ ''void''\<rparr>]"
  by (simp add: engine_defs included_tu_def included_if_def included_lex)

end
